theory Spec2Isabelle
  imports Complex_Main "HOL-Library.AList" "HOL-Library.Word"
begin

section \<open>Engagement decision and timing engine of the Discord account manager\<close>

text \<open>
  A shallow embedding of the decision functions of \<^verbatim>\<open>src/discordManager.ts\<close>.

  Conventions of the embedding.
  \<^item> A JavaScript string is a list of UTF-16 code units, so \<^verbatim>\<open>content.length\<close> is
    \<open>length\<close>. Identifiers that the code only compares (channel ids, account ids) are
    plain \<open>string\<close>s.
  \<^item> A JavaScript number is an IEEE 754 double. A finite double is a rational, so numbers
    are of type \<open>rat\<close>, and \<open>roundDouble\<close> rounds the exact result of an operation to the
    nearest double. The unified response chance (\<open>baseResponseChance\<close>,
    \<open>unifiedResponseChance\<close>) and the media target (\<open>rollTargetCount\<close>) round every literal
    and every operation as the code does: there \<open>0.05 + 0.10\<close> is
    \<^verbatim>\<open>0.15000000000000002\<close>, not \<open>0.15\<close>. The legacy chance and the delays are computed
    on exact rationals, without rounding (\<open>180 * 0.7\<close> is \<open>126\<close> there and
    \<^verbatim>\<open>125.99999999999999\<close> in a double): what is proved of them are bounds and branches
    that \<^verbatim>\<open>Math.min\<close>, \<^verbatim>\<open>Math.max\<close> and comparisons decide, which are exact on doubles.
    Millisecond instants and counters are \<open>int\<close>.
  \<^item> Every call of \<^verbatim>\<open>Math.random()\<close> is an explicit argument (\<open>rnd\<close>, \<open>rnd1\<close>, ...)
    in the order in which the code draws; \<^verbatim>\<open>Date.now()\<close> is the argument \<open>now\<close>.
  \<^item> A module-level \<^verbatim>\<open>Map\<close> is an association list in insertion order, read with
    \<open>map_of\<close>, written with \<open>AList.update\<close> (which keeps the position of an existing key
    and appends a new one, as \<^verbatim>\<open>Map.set\<close> does) and \<open>AList.delete\<close>; a function that
    mutates a map returns the new map.
\<close>

subsection \<open>Strings and the regular expressions the code uses\<close>

type_synonym code_unit = "16 word"
type_synonym js_string = "code_unit list"

definition u16 :: "string \<Rightarrow> js_string" where
  "u16 s = map of_char s"

text \<open>
  The patterns of the code are ASCII and, where flagged \<^verbatim>\<open>/i\<close>, carry no \<^verbatim>\<open>u\<close> flag. Under
  that flag a code unit of 128 or more never canonicalises to an ASCII one, so a pattern
  letter matches exactly its lower-case and its upper-case ASCII form.
\<close>

definition asciiUpper :: "code_unit \<Rightarrow> code_unit" where
  "asciiUpper c = (if 0x61 \<le> c \<and> c \<le> 0x7A then c - 0x20 else c)"

fun matchesAt :: "js_string \<Rightarrow> js_string \<Rightarrow> bool" where
  "matchesAt [] cs = True"
| "matchesAt (p # ps) [] = False"
| "matchesAt (p # ps) (c # cs) = (asciiUpper c = asciiUpper p \<and> matchesAt ps cs)"

text \<open>\<open>regexTestI alts s\<close> is \<^verbatim>\<open>/(alt1|alt2|...)/i.test(s)\<close> for literal alternatives.\<close>

fun regexTestI :: "js_string list \<Rightarrow> js_string \<Rightarrow> bool" where
  "regexTestI alts [] = list_ex (\<lambda>p. matchesAt p []) alts"
| "regexTestI alts (c # cs) = (list_ex (\<lambda>p. matchesAt p (c # cs)) alts \<or> regexTestI alts cs)"

text \<open>\<^verbatim>\<open>String.prototype.includes\<close> with a literal needle (case-sensitive).\<close>

fun startsWith :: "js_string \<Rightarrow> js_string \<Rightarrow> bool" where
  "startsWith [] cs = True"
| "startsWith (p # ps) [] = False"
| "startsWith (p # ps) (c # cs) = (c = p \<and> startsWith ps cs)"

fun includes_str :: "js_string \<Rightarrow> js_string \<Rightarrow> bool" where
  "includes_str [] needle = startsWith needle []"
| "includes_str (c # cs) needle = (startsWith needle (c # cs) \<or> includes_str cs needle)"

definition QUESTION_MARK :: code_unit where "QUESTION_MARK = 0x3F"
definition EXCLAMATION_MARK :: code_unit where "EXCLAMATION_MARK = 0x21"

subsection \<open>IEEE 754 double arithmetic\<close>

text \<open>
  A finite double is \<open>m * 2 ^ (e - 52)\<close> for an integer \<open>m\<close> of magnitude below \<open>2 ^ 53\<close>, where
  \<open>e\<close> is the binary exponent of the value, or \<open>-1022\<close> for the subnormal numbers below
  \<open>2 ^ (-1022)\<close>. \<open>roundDouble x\<close> is the double nearest to the rational \<open>x\<close>, a tie going to
  the even \<open>m\<close> (the one rounding mode of JavaScript). Values of \<open>2 ^ 1024\<close> and more, which
  a double rounds to infinity, do not occur in the functions below.

  \<open>bitLength n\<close> is the number of binary digits of a positive integer, \<open>binaryExponent x\<close>
  the \<open>e\<close> with \<open>2 ^ e \<le> x < 2 ^ (e + 1)\<close> for a positive rational, \<open>roundHalfEven\<close> the
  nearest integer with ties to the even one. \<open>addD\<close>, \<open>subD\<close>, \<open>mulD\<close> and \<open>divD\<close> are
  \<^verbatim>\<open>+\<close>, \<^verbatim>\<open>-\<close>, \<^verbatim>\<open>*\<close> and \<^verbatim>\<open>/\<close> on doubles.
\<close>

function bitLength :: "int \<Rightarrow> nat" where
  "bitLength n = (if n \<le> 0 then 0 else Suc (bitLength (n div 2)))"
  by pat_completeness auto
termination
  by (relation "measure nat") auto

declare bitLength.simps [simp del]

definition pow2 :: "int \<Rightarrow> rat" where
  "pow2 e = (if 0 \<le> e then 2 ^ nat e else 1 / 2 ^ nat (- e))"

definition binaryExponent :: "rat \<Rightarrow> int" where
  "binaryExponent x =
     (if 1 \<le> x then int (bitLength \<lfloor>x\<rfloor>) - 1 else - int (bitLength (\<lceil>1 / x\<rceil> - 1)))"

definition roundHalfEven :: "rat \<Rightarrow> int" where
  "roundHalfEven x =
     (let f = \<lfloor>x\<rfloor>; d = x - of_int f
      in if d < 1/2 then f else if 1/2 < d then f + 1 else if even f then f else f + 1)"

definition roundDouble :: "rat \<Rightarrow> rat" where
  "roundDouble x =
     (if x = 0 then 0
      else let e = max (binaryExponent \<bar>x\<bar>) (- 1022);
               ulp = pow2 (e - 52)
           in of_int (roundHalfEven (x / ulp)) * ulp)"

definition addD :: "rat \<Rightarrow> rat \<Rightarrow> rat" where "addD a b = roundDouble (a + b)"
definition subD :: "rat \<Rightarrow> rat \<Rightarrow> rat" where "subD a b = roundDouble (a - b)"
definition mulD :: "rat \<Rightarrow> rat \<Rightarrow> rat" where "mulD a b = roundDouble (a * b)"
definition divD :: "rat \<Rightarrow> rat \<Rightarrow> rat" where "divD a b = roundDouble (a / b)"

subsection \<open>Configuration (types.ts)\<close>

datatype AccountType = Bot | User
datatype MessageFrequency = High | Medium | Low
datatype MessageBehavior = Normal | Aggressive | Passive

record RedditImageConfig =
  subreddits :: "string list"
  minMessages :: int
  maxMessages :: int
  nsfw :: bool

text \<open>
  \<^verbatim>\<open>AccountConfig = BotConfig | UserConfig\<close>. The optional fields are options; the two legacy
  fields exist on user accounts only and are \<open>None\<close> on a bot account.
\<close>

record AccountConfig =
  id_cfg :: string
  accountType :: AccountType
  redditConfig :: "RedditImageConfig option"
  interactionRate :: "int option"
  messageFrequency :: "MessageFrequency option"
  messageBehavior :: "MessageBehavior option"

subsection \<open>Probability model: shouldAccountRespond, shouldLegacyUserAccountRespond\<close>

text \<open>
  Lines 281-292: the piecewise-linear base chance, in double arithmetic. The interaction
  rate is an integer (the configuration clamps it to 1..100), and so is its difference
  with 20, 40, 60 or 80; a decimal literal is the double nearest to it.
\<close>

definition baseResponseChance :: "int \<Rightarrow> rat" where
  "baseResponseChance rate =
     (if rate \<le> 20 then mulD (divD (of_int rate) 20) (roundDouble 0.05)
      else if rate \<le> 40 then
        addD (roundDouble 0.05) (mulD (divD (of_int (rate - 20)) 20) (roundDouble 0.10))
      else if rate \<le> 60 then
        addD (roundDouble 0.15) (mulD (divD (of_int (rate - 40)) 20) (roundDouble 0.15))
      else if rate \<le> 80 then
        addD (roundDouble 0.30) (mulD (divD (of_int (rate - 60)) 20) (roundDouble 0.20))
      else addD (roundDouble 0.50) (mulD (divD (of_int (rate - 80)) 20) (roundDouble 0.20)))"

definition unifiedEmotions :: "js_string list" where
  "unifiedEmotions = map u16 [''!'', ''?'', ''wow'', ''amazing'', ''great'', ''terrible'',
     ''awful'', ''love'', ''hate'', ''awesome'', ''fantastic'', ''horrible'']"

definition legacyEmotions :: "js_string list" where
  "legacyEmotions = map u16 [''!'', ''?'', ''wow'', ''amazing'', ''great'', ''terrible'',
     ''awful'', ''love'', ''hate'']"

text \<open>
  Lines 294-311: the value of \<^verbatim>\<open>baseResponseChance\<close> when it is compared with the random
  draw, that is after the boosts and the cap of 0.8, in double arithmetic.
\<close>

definition unifiedResponseChance :: "int \<Rightarrow> js_string \<Rightarrow> rat" where
  "unifiedResponseChance rate content =
     (let c0 = baseResponseChance rate;
          isQuestion = QUESTION_MARK \<in> set content;
          c1 = (if isQuestion then mulD c0 (roundDouble 1.8) else c0);
          isLongMessage = length content > 100;
          containsEmotions = regexTestI unifiedEmotions content;
          isExclamation = EXCLAMATION_MARK \<in> set content;
          c2 = (if isLongMessage then mulD c1 (roundDouble 1.3) else c1);
          c3 = (if containsEmotions then mulD c2 (roundDouble 1.4) else c2);
          c4 = (if isExclamation \<and> \<not> isQuestion then mulD c3 (roundDouble 1.2) else c3)
      in min c4 (roundDouble 0.8))"

text \<open>Lines 340-341: the chance of the separate roll a question gets on the legacy path.\<close>

definition questionResponseChance :: "MessageBehavior option \<Rightarrow> rat" where
  "questionResponseChance b =
     (if b = Some Aggressive then 0.7 else if b = Some Passive then 0.2 else 0.4)"

text \<open>
  Lines 348-386: the value of \<^verbatim>\<open>baseResponseChance\<close> of the legacy path when it is compared
  with the random draw. The cap of 0.5 (line 378) comes before the two boosts.
\<close>

definition legacyResponseChance :: "AccountConfig \<Rightarrow> js_string \<Rightarrow> rat" where
  "legacyResponseChance userConfig content =
     (let c0 = (case messageFrequency userConfig of
                  Some High \<Rightarrow> 0.3
                | Some Medium \<Rightarrow> 0.15
                | Some Low \<Rightarrow> 0.05
                | None \<Rightarrow> 0.1);
          c1 = (case messageBehavior userConfig of
                  Some Aggressive \<Rightarrow> c0 * 1.5
                | Some Passive \<Rightarrow> c0 * 0.5
                | Some Normal \<Rightarrow> c0
                | None \<Rightarrow> c0);
          c2 = min c1 0.5;
          isLongMessage = length content > 100;
          containsEmotions = regexTestI legacyEmotions content;
          c3 = (if isLongMessage then c2 * 1.2 else c2);
          c4 = (if containsEmotions then c3 * 1.3 else c3)
      in c4)"

text \<open>
  \<open>rnd1\<close> and \<open>rnd2\<close> are the first and the second value \<^verbatim>\<open>Math.random()\<close> returns during
  the call. A question on the legacy path spends the first draw on its own roll and, when
  that roll fails, the second on the final comparison.
\<close>

definition shouldLegacyUserAccountRespond ::
  "js_string \<Rightarrow> AccountConfig \<Rightarrow> bool \<Rightarrow> bool \<Rightarrow> rat \<Rightarrow> rat \<Rightarrow> bool" where
  "shouldLegacyUserAccountRespond content userConfig isMentioned containsAccountName rnd1 rnd2 =
     (if isMentioned \<or> containsAccountName then True
      else if QUESTION_MARK \<in> set content then
        (if rnd1 < questionResponseChance (messageBehavior userConfig) then True
         else rnd2 < legacyResponseChance userConfig content)
      else rnd1 < legacyResponseChance userConfig content)"

definition shouldAccountRespond ::
  "js_string \<Rightarrow> AccountConfig \<Rightarrow> bool \<Rightarrow> bool \<Rightarrow> rat \<Rightarrow> rat \<Rightarrow> bool" where
  "shouldAccountRespond content accountConfig isMentioned containsAccountName rnd1 rnd2 =
     (if isMentioned \<or> containsAccountName then True
      else case interactionRate accountConfig of
        None \<Rightarrow>
          (case accountType accountConfig of
             Bot \<Rightarrow> False
           | User \<Rightarrow> shouldLegacyUserAccountRespond content accountConfig
                       isMentioned containsAccountName rnd1 rnd2)
      | Some rate \<Rightarrow> rnd1 < unifiedResponseChance rate content)"

subsection \<open>Constants (constants.ts)\<close>

definition MAX_BOT_CHAIN :: int where "MAX_BOT_CHAIN = 3"
definition BOT_CHAIN_INACTIVITY_RESET_MS :: int where "BOT_CHAIN_INACTIVITY_RESET_MS = 600000"
definition RECENTLY_SENT_IMAGE_CACHE_SIZE :: nat where "RECENTLY_SENT_IMAGE_CACHE_SIZE = 30"
definition MAX_UNIQUE_IMAGE_FETCH_ATTEMPTS :: nat where "MAX_UNIQUE_IMAGE_FETCH_ATTEMPTS = 5"
definition MAX_RESPONSE_DELAY_MS :: int where "MAX_RESPONSE_DELAY_MS = 15 * 60 * 1000"
definition MIN_RESPONSE_DELAY_MS :: int where "MIN_RESPONSE_DELAY_MS = 2000"
definition TYPING_INDICATOR_MIN_PERCENTAGE :: rat where "TYPING_INDICATOR_MIN_PERCENTAGE = 0.2"
definition TYPING_INDICATOR_MAX_PERCENTAGE :: rat where "TYPING_INDICATOR_MAX_PERCENTAGE = 0.6"

text \<open>
  \<^verbatim>\<open>discordManager.ts\<close> also imports \<^verbatim>\<open>DEVELOPMENT_MODE\<close> and \<^verbatim>\<open>DEVELOPMENT_MAX_DELAY_MS\<close>,
  which \<^verbatim>\<open>constants.ts\<close> does not export. The functions that read them take them as the
  arguments \<open>DEVELOPMENT_MODE\<close> and \<open>DEVELOPMENT_MAX_DELAY_MS\<close>.
\<close>

subsection \<open>Timing model: calculateRealisticDelay, calculateTypingDelay, isMessageUrgent\<close>

text \<open>Lines 163-183: the range in seconds chosen from the minutes since the last interaction.\<close>

definition baseDelayRange :: "int \<Rightarrow> int \<times> int" where
  "baseDelayRange timeSinceLastMs =
     (let safeSinceLastMs = max 0 timeSinceLastMs;
          minutesSinceLast = (of_int safeSinceLastMs :: rat) / (60 * 1000)
      in if minutesSinceLast < 1 then (3, 25)
         else if minutesSinceLast < 10 then (15, 120)
         else if minutesSinceLast < 30 then (30, 240)
         else if minutesSinceLast < 120 then (60, 480)
         else (180, 900))"

definition calculateRealisticDelay :: "bool \<Rightarrow> int \<Rightarrow> int \<Rightarrow> bool \<Rightarrow> bool \<Rightarrow> rat \<Rightarrow> int" where
  "calculateRealisticDelay DEVELOPMENT_MODE DEVELOPMENT_MAX_DELAY_MS timeSinceLastMs isDM isUrgent rnd =
     (let (lo0, hi0) = baseDelayRange timeSinceLastMs;
          (lo1, hi1) = (if isDM then (max 2 \<lfloor>(of_int lo0 :: rat) * 0.7\<rfloor>, \<lfloor>(of_int hi0 :: rat) * 0.8\<rfloor>)
                        else (lo0, hi0));
          (minDelay, maxDelay) =
                       (if isUrgent then (max 2 \<lfloor>(of_int lo1 :: rat) * 0.8\<rfloor>, \<lfloor>(of_int hi1 :: rat) * 0.9\<rfloor>)
                        else (lo1, hi1));
          randomDelay = \<lfloor>rnd * of_int (maxDelay - minDelay + 1)\<rfloor> + minDelay;
          delayMs = randomDelay * 1000;
          hardMaxDelay = (if DEVELOPMENT_MODE then DEVELOPMENT_MAX_DELAY_MS else MAX_RESPONSE_DELAY_MS)
      in min (max delayMs MIN_RESPONSE_DELAY_MS) hardMaxDelay)"

definition calculateTypingDelay :: "int \<Rightarrow> rat \<Rightarrow> int" where
  "calculateTypingDelay totalDelayMs rnd =
     (let typingPercentage = TYPING_INDICATOR_MIN_PERCENTAGE +
            rnd * (TYPING_INDICATOR_MAX_PERCENTAGE - TYPING_INDICATOR_MIN_PERCENTAGE)
      in \<lfloor>of_int totalDelayMs * typingPercentage\<rfloor>)"

definition urgentPatterns :: "js_string list" where
  "urgentPatterns = map u16 [''?'', ''help'', ''urgent'', ''quick'', ''asap'', ''emergency'']"

definition isMessageUrgent :: "js_string \<Rightarrow> bool \<Rightarrow> bool" where
  "isMessageUrgent content isMentioned =
     (if isMentioned then True else regexTestI urgentPatterns content)"

subsection \<open>Debug overrides and the wait before a reply\<close>

record DebugCheats =
  forceImage :: bool
  instantResponse :: bool

text \<open>Two single quotes (code unit 0x27 twice) force an image, a backtick (0x60) an instant reply.\<close>

definition checkDebugCheats :: "js_string \<Rightarrow> DebugCheats" where
  "checkDebugCheats content =
     \<lparr>forceImage = includes_str content [0x27, 0x27],
      instantResponse = includes_str content [0x60]\<rparr>"

text \<open>
  What the handler does between its decision to reply and the fetch of the conversation:
  \<open>Sleep d\<close> is an awaited \<^verbatim>\<open>setTimeout\<close> of \<open>d\<close> milliseconds, \<open>SendTyping\<close> an awaited
  \<^verbatim>\<open>sendTyping()\<close>, \<open>ScheduleTyping d\<close> the timer that is set but not awaited, \<open>ClearTyping\<close>
  its \<^verbatim>\<open>clearTimeout\<close>.
\<close>

datatype timing_step = Sleep int | SendTyping | ScheduleTyping int | ClearTyping

text \<open>
  Lines 664-713 and 867-910, which are the same in both handlers but for the channel class
  test (\<open>canType\<close>). \<open>rndDelay\<close>, \<open>rndTyping\<close> and \<open>rndSafeTyping\<close> are the draws of the three
  places that call \<^verbatim>\<open>Math.random()\<close>, in that order.
\<close>

definition waitBeforeReply ::
  "bool \<Rightarrow> int \<Rightarrow> bool \<Rightarrow> js_string \<Rightarrow> int \<Rightarrow> bool \<Rightarrow> bool \<Rightarrow> rat \<Rightarrow> rat \<Rightarrow> rat \<Rightarrow> timing_step list" where
  "waitBeforeReply DEVELOPMENT_MODE DEVELOPMENT_MAX_DELAY_MS canType content timeSinceLastMs isDM isUrgent
       rndDelay rndTyping rndSafeTyping =
     (let debugCheats = checkDebugCheats content;
          responseDelayMs = (if instantResponse debugCheats then 1000
             else calculateRealisticDelay DEVELOPMENT_MODE DEVELOPMENT_MAX_DELAY_MS
                    timeSinceLastMs isDM isUrgent rndDelay);
          typingDelayMs = (if instantResponse debugCheats then 200
             else calculateTypingDelay responseDelayMs rndTyping)
      in if responseDelayMs > 30000 then
           (let safeDelayMs = 10000;
                safeTypingDelayMs = calculateTypingDelay safeDelayMs rndSafeTyping
            in [Sleep safeTypingDelayMs] @ (if canType then [SendTyping] else []) @
               [Sleep (safeDelayMs - safeTypingDelayMs)])
         else [ScheduleTyping typingDelayMs, Sleep responseDelayMs, ClearTyping])"

text \<open>
  Line 661 and line 864: a missing (or zero, hence falsy) last interaction time counts as
  30 seconds ago.
\<close>

definition timeSinceLastInteraction :: "int option \<Rightarrow> int \<Rightarrow> int" where
  "timeSinceLastInteraction lastInteractionTime now =
     (case lastInteractionTime of
        None \<Rightarrow> 30000
      | Some t \<Rightarrow> if t = 0 then 30000 else now - t)"

text \<open>The server-message handler (lines 654-713): not a direct message, urgency from the mention.\<close>

definition channelWait ::
  "bool \<Rightarrow> int \<Rightarrow> bool \<Rightarrow> js_string \<Rightarrow> bool \<Rightarrow> int option \<Rightarrow> int \<Rightarrow> rat \<Rightarrow> rat \<Rightarrow> rat \<Rightarrow> timing_step list" where
  "channelWait DEVELOPMENT_MODE DEVELOPMENT_MAX_DELAY_MS canType content isMentioned lastInteractionTime now
       rndDelay rndTyping rndSafeTyping =
     waitBeforeReply DEVELOPMENT_MODE DEVELOPMENT_MAX_DELAY_MS canType content
       (timeSinceLastInteraction lastInteractionTime now) False (isMessageUrgent content isMentioned)
       rndDelay rndTyping rndSafeTyping"

text \<open>handleDirectMessage (lines 857-910): a direct message, always passed as mentioned.\<close>

definition directWait ::
  "bool \<Rightarrow> int \<Rightarrow> bool \<Rightarrow> js_string \<Rightarrow> int option \<Rightarrow> int \<Rightarrow> rat \<Rightarrow> rat \<Rightarrow> rat \<Rightarrow> timing_step list" where
  "directWait DEVELOPMENT_MODE DEVELOPMENT_MAX_DELAY_MS canType content lastInteractionTime now
       rndDelay rndTyping rndSafeTyping =
     waitBeforeReply DEVELOPMENT_MODE DEVELOPMENT_MAX_DELAY_MS canType content
       (timeSinceLastInteraction lastInteractionTime now) True (isMessageUrgent content True)
       rndDelay rndTyping rndSafeTyping"

fun sleepMs :: "timing_step \<Rightarrow> int" where
  "sleepMs (Sleep d) = (if 1 \<le> d \<and> d \<le> 2147483647 then d else 1)"
| "sleepMs SendTyping = 0"
| "sleepMs (ScheduleTyping d) = 0"
| "sleepMs ClearTyping = 0"

text \<open>
  The wait before the reply: the sum of the awaited timeouts. Node runs a timeout whose
  delay is below 1 or above \<open>2\<^sup>3\<^sup>1 - 1\<close> after 1 millisecond (see \<open>sleepMs\<close>).
\<close>

definition totalWait :: "timing_step list \<Rightarrow> int" where
  "totalWait steps = sum_list (map sleepMs steps)"

subsection \<open>Chain guard: shouldAllowAccountResponse\<close>

record AccountConversationChain =
  chainCount :: int
  lastAccountId :: string
  lastActivity :: int

type_synonym chains = "(string \<times> AccountConversationChain) list"

text \<open>
  Lines 96-110: the update after an allowed reply, the \<^verbatim>\<open>Map.set\<close> and the sweep of stale
  entries once the map holds more than 1000 keys.
\<close>

definition recordAccountResponse ::
  "string \<Rightarrow> string \<Rightarrow> int \<Rightarrow> AccountConversationChain \<Rightarrow> chains \<Rightarrow> chains" where
  "recordAccountResponse channelId ourAccountId now chainData accountToAccountChains =
     (let chainData' = chainData\<lparr>lastAccountId := ourAccountId, lastActivity := now\<rparr>;
          chains' = AList.update channelId chainData' accountToAccountChains
      in if length chains' > 1000 then
           (let oldestAllowed = now - BOT_CHAIN_INACTIVITY_RESET_MS * 2
            in filter (\<lambda>(key, v). \<not> lastActivity v < oldestAllowed) chains')
         else chains')"

text \<open>
  Lines 60-111. \<^verbatim>\<open>chainData\<close> is the stored object when the channel has an entry, so the
  inactivity reset of lines 77-80 writes through to the map (\<open>chains1\<close>) before the chain
  limit is tested; without an entry it is a fresh object and the map is untouched until
  \<^verbatim>\<open>Map.set\<close>. An empty channel id is falsy and takes the first return.
\<close>

definition shouldAllowAccountResponse :: "string \<Rightarrow> string \<Rightarrow> int \<Rightarrow> chains \<Rightarrow> bool \<times> chains" where
  "shouldAllowAccountResponse channelId ourAccountId now accountToAccountChains =
     (if channelId = [] then (True, accountToAccountChains)
      else
        let stored = map_of accountToAccountChains channelId;
            chainData0 = (case stored of
                            Some c \<Rightarrow> c
                          | None \<Rightarrow> \<lparr>chainCount = 0, lastAccountId = [], lastActivity = 0\<rparr>);
            timeSinceLast = now - lastActivity chainData0;
            chainData1 = (if timeSinceLast > BOT_CHAIN_INACTIVITY_RESET_MS
                          then chainData0\<lparr>chainCount := 0, lastAccountId := []\<rparr>
                          else chainData0);
            chains1 = (case stored of
                         Some c \<Rightarrow> AList.update channelId chainData1 accountToAccountChains
                       | None \<Rightarrow> accountToAccountChains)
        in if lastAccountId chainData1 \<noteq> [] \<and> lastAccountId chainData1 = ourAccountId then
             (if chainCount chainData1 \<ge> MAX_BOT_CHAIN then (False, chains1)
              else (True, recordAccountResponse channelId ourAccountId now
                      (chainData1\<lparr>chainCount := chainCount chainData1 + 1\<rparr>) chains1))
           else (True, recordAccountResponse channelId ourAccountId now
                   (chainData1\<lparr>chainCount := 1\<rparr>) chains1))"

subsection \<open>Media cadence: shouldAttachRedditImage\<close>

record ChannelMessageTracker =
  messageCount :: int
  targetMessageCount :: int
  lastImageTime :: int

type_synonym trackers = "(string \<times> ChannelMessageTracker) list"
type_synonym recent_images = "(string \<times> string list) list"

text \<open>
  Lines 463-466 and 495-498: the target drawn from the two configured bounds, in double
  arithmetic. The product and the sum are rounded before \<^verbatim>\<open>Math.floor\<close> is applied; the two
  bounds are integers.
\<close>

definition rollTargetCount :: "RedditImageConfig \<Rightarrow> rat \<Rightarrow> int" where
  "rollTargetCount rc rnd =
     \<lfloor>addD (mulD rnd (of_int (maxMessages rc - minMessages rc + 1)))
        (of_int (minMessages rc))\<rfloor>"

text \<open>
  Lines 474-483: trackers whose last image is older than 30 days leave the tracker map and
  take the channel's list of recently sent images with them.
\<close>

definition staleTracker :: "int \<Rightarrow> ChannelMessageTracker \<Rightarrow> bool" where
  "staleTracker oldestAllowed v = (lastImageTime v > 0 \<and> lastImageTime v < oldestAllowed)"

definition sweepTrackers :: "int \<Rightarrow> trackers \<Rightarrow> recent_images \<Rightarrow> trackers \<times> recent_images" where
  "sweepTrackers now channelMessageTrackers recentlySent =
     (if length channelMessageTrackers > 1000 then
        (let oldestAllowed = now - 30 * 24 * 60 * 60 * 1000;
             dropped = map fst (filter (\<lambda>(key, v). staleTracker oldestAllowed v) channelMessageTrackers)
         in (filter (\<lambda>(key, v). \<not> staleTracker oldestAllowed v) channelMessageTrackers,
             filter (\<lambda>(key, ids). key \<notin> set dropped) recentlySent))
      else (channelMessageTrackers, recentlySent))"

text \<open>
  Lines 444-504. \<open>rnd\<close> is the draw of the one \<^verbatim>\<open>Math.random()\<close> a call makes (for the first
  target or for the re-rolled one). The result is the decision with both maps.
\<close>

definition shouldAttachRedditImage ::
  "string \<Rightarrow> AccountConfig \<Rightarrow> bool \<Rightarrow> int \<Rightarrow> rat \<Rightarrow> trackers \<Rightarrow> recent_images
     \<Rightarrow> bool \<times> trackers \<times> recent_images" where
  "shouldAttachRedditImage channelId accountConfig forceImageArg now rnd channelMessageTrackers recentlySent =
     (case redditConfig accountConfig of
        None \<Rightarrow> (False, channelMessageTrackers, recentlySent)
      | Some rc \<Rightarrow>
          if length (subreddits rc) = 0 then (False, channelMessageTrackers, recentlySent)
          else if forceImageArg then (True, channelMessageTrackers, recentlySent)
          else
            (case map_of channelMessageTrackers channelId of
               None \<Rightarrow>
                 (let targetCount = rollTargetCount rc rnd;
                      trackers' = AList.update channelId
                        \<lparr>messageCount = 1, targetMessageCount = targetCount, lastImageTime = 0\<rparr>
                        channelMessageTrackers
                  in (False, sweepTrackers now trackers' recentlySent))
             | Some tracker \<Rightarrow>
                 (let tracker1 = tracker\<lparr>messageCount := messageCount tracker + 1\<rparr>
                  in if messageCount tracker1 \<ge> targetMessageCount tracker1 then
                       (True,
                        AList.update channelId
                          \<lparr>messageCount = 0, targetMessageCount = rollTargetCount rc rnd,
                           lastImageTime = now\<rparr> channelMessageTrackers,
                        recentlySent)
                     else (False, AList.update channelId tracker1 channelMessageTrackers,
                           recentlySent))))"

subsection \<open>Recency cache: getUnseenRandomRedditImage\<close>

record RedditImageData =
  image_id :: string
  filename :: string
  title :: string
  subreddit :: string

text \<open>
  \<^verbatim>\<open>getRandomRedditImage\<close> (redditAPI.ts) catches its own errors and resolves to an image or
  to \<^verbatim>\<open>null\<close>. Its results are the argument \<open>fetch\<close>: \<open>fetch k\<close> is what the call number \<open>k\<close>
  (from 0) of one run of \<^verbatim>\<open>getUnseenRandomRedditImage\<close> resolves to.

  Lines 522-541: the loop of at most \<^verbatim>\<open>MAX_UNIQUE_IMAGE_FETCH_ATTEMPTS\<close> fetches; it returns the
  first image whose id is not in \<open>recentlySentIds\<close>, and \<open>None\<close> when it runs out.
\<close>

function uniqueFetchLoop ::
  "(nat \<Rightarrow> RedditImageData option) \<Rightarrow> string list \<Rightarrow> nat \<Rightarrow> RedditImageData option" where
  "uniqueFetchLoop fetch recentlySentIds attempt =
     (if attempt < MAX_UNIQUE_IMAGE_FETCH_ATTEMPTS then
        (case fetch attempt of
           None \<Rightarrow> uniqueFetchLoop fetch recentlySentIds (attempt + 1)
         | Some img \<Rightarrow>
             if image_id img \<notin> set recentlySentIds then Some img
             else uniqueFetchLoop fetch recentlySentIds (attempt + 1))
      else None)"
  by pat_completeness auto
termination
  by (relation "measure (\<lambda>(fetch, ids, attempt). MAX_UNIQUE_IMAGE_FETCH_ATTEMPTS - attempt)") auto

text \<open>Lines 534-535 and 550-551: the id goes to the front of the list read at line 520.\<close>

definition rememberImage :: "string \<Rightarrow> string list \<Rightarrow> RedditImageData \<Rightarrow> recent_images \<Rightarrow> recent_images" where
  "rememberImage channelId recentlySentIds img recentlySent =
     AList.update channelId (take RECENTLY_SENT_IMAGE_CACHE_SIZE (image_id img # recentlySentIds))
       recentlySent"

definition getUnseenRandomRedditImage ::
  "AccountConfig \<Rightarrow> string \<Rightarrow> (nat \<Rightarrow> RedditImageData option) \<Rightarrow> recent_images
     \<Rightarrow> RedditImageData option \<times> recent_images" where
  "getUnseenRandomRedditImage accountConfig channelId fetch recentlySent =
     (case redditConfig accountConfig of
        None \<Rightarrow> (None, recentlySent)
      | Some rc \<Rightarrow>
          if length (subreddits rc) = 0 then (None, recentlySent)
          else
            let recentlySentIds = (case map_of recentlySent channelId of
                                     Some ids \<Rightarrow> ids
                                   | None \<Rightarrow> [])
            in case uniqueFetchLoop fetch recentlySentIds 0 of
                 Some img \<Rightarrow>
                   (Some img, rememberImage channelId recentlySentIds img recentlySent)
               | None \<Rightarrow>
                   (case fetch MAX_UNIQUE_IMAGE_FETCH_ATTEMPTS of
                      Some lastAttemptImage \<Rightarrow>
                        (Some lastAttemptImage,
                         rememberImage channelId recentlySentIds lastAttemptImage recentlySent)
                    | None \<Rightarrow> (None, recentlySent)))"

subsection \<open>The message handler: which messages get a reply\<close>

text \<open>
  The three kinds of channel the handler tells apart: a 1:1 direct message channel, a
  text-based channel of a server, and everything else (a group DM for instance).
\<close>

datatype ChannelType = DM | GuildTextBased | OtherChannel

record Message =
  authorId :: string
  authorBot :: bool
  channelType :: ChannelType
  channelId :: string
  content :: js_string
  mentionedUserIds :: "string list"

record ClientUser =
  userId :: string
  username :: js_string

text \<open>The five values \<^verbatim>\<open>Math.random()\<close> can be asked for while one message is handled.\<close>

record Draws =
  rndRespond1 :: rat
  rndRespond2 :: rat
  rndDelay :: rat
  rndTyping :: rat
  rndSafeTyping :: rat

text \<open>
  \<open>Ignored\<close>: the handler returns without a reply. \<open>Proceeds steps\<close>: it waits as \<open>steps\<close>
  says and then fetches the conversation and calls the inference service.
\<close>

datatype handler_outcome = Ignored | Proceeds "timing_step list"

text \<open>
  Lines 114-148; \<open>hasPermissions\<close> is the answer of the permission query of a server channel
  (false when the query fails).
\<close>

definition canRespondToChannel :: "ChannelType \<Rightarrow> bool \<Rightarrow> bool" where
  "canRespondToChannel t hasPermissions =
     (case t of DM \<Rightarrow> True | GuildTextBased \<Rightarrow> hasPermissions | OtherChannel \<Rightarrow> False)"

definition getInteractionKey :: "string \<Rightarrow> string \<Rightarrow> string \<Rightarrow> string" where
  "getInteractionKey chanId usrId botId = chanId @ '':'' @ usrId @ '':'' @ botId"

text \<open>
  handleDirectMessage, lines 823-910, up to the end of the wait. It holds no test of the
  message against the account's interaction rate: every direct message goes on to the wait.
  (The per-user counter of lines 827-851 is read by nothing else and is left out.)
\<close>

definition handleDirectMessage ::
  "bool \<Rightarrow> int \<Rightarrow> bool \<Rightarrow> int \<Rightarrow> Draws \<Rightarrow> (string \<times> int) list \<Rightarrow> Message \<Rightarrow> AccountConfig
     \<Rightarrow> handler_outcome" where
  "handleDirectMessage DEVELOPMENT_MODE DEVELOPMENT_MAX_DELAY_MS canType now draws lastInteractionTimes
       message accountConfig =
     (let interactionKey = getInteractionKey (channelId message) (authorId message) (id_cfg accountConfig);
          lastInteractionTime = map_of lastInteractionTimes interactionKey
      in Proceeds (directWait DEVELOPMENT_MODE DEVELOPMENT_MAX_DELAY_MS canType (content message)
                     lastInteractionTime now (rndDelay draws) (rndTyping draws) (rndSafeTyping draws)))"

text \<open>
  The \<^verbatim>\<open>messageCreate\<close> handler, lines 606-713, up to the end of the wait. \<open>toLowerCase\<close> is
  \<^verbatim>\<open>String.prototype.toLowerCase\<close>, \<open>clientUser\<close> is \<^verbatim>\<open>client.user\<close> (which may be undefined).
  The result is the outcome with the chain map as the handler leaves it.
\<close>

definition messageCreate ::
  "bool \<Rightarrow> int \<Rightarrow> (js_string \<Rightarrow> js_string) \<Rightarrow> ClientUser option \<Rightarrow> AccountConfig \<Rightarrow> bool \<Rightarrow> bool
     \<Rightarrow> int \<Rightarrow> Draws \<Rightarrow> (string \<times> int) list \<Rightarrow> Message \<Rightarrow> chains \<Rightarrow> handler_outcome \<times> chains" where
  "messageCreate DEVELOPMENT_MODE DEVELOPMENT_MAX_DELAY_MS toLowerCase clientUser accountConfig
       hasPermissions canType now draws lastInteractionTimes message accountToAccountChains =
     (if (case clientUser of Some u \<Rightarrow> authorId message = userId u | None \<Rightarrow> False)
        then (Ignored, accountToAccountChains)
      else if \<not> canRespondToChannel (channelType message) hasPermissions
        then (Ignored, accountToAccountChains)
      else
        let chains1 = (if \<not> authorBot message \<and> channelType message \<noteq> DM
                       then AList.delete (channelId message) accountToAccountChains
                       else accountToAccountChains)
        in if channelType message = DM then
             (handleDirectMessage DEVELOPMENT_MODE DEVELOPMENT_MAX_DELAY_MS canType now draws
                lastInteractionTimes message accountConfig, chains1)
           else
             (case clientUser of
                None \<Rightarrow> (Ignored, chains1)
              | Some accountUser \<Rightarrow>
                  let accountUsername = toLowerCase (username accountUser);
                      isMentioned = userId accountUser \<in> set (mentionedUserIds message);
                      containsAccountName = includes_str (toLowerCase (content message)) accountUsername;
                      shouldRespond = shouldAccountRespond (content message) accountConfig
                        isMentioned containsAccountName (rndRespond1 draws) (rndRespond2 draws)
                  in if \<not> shouldRespond then (Ignored, chains1)
                     else
                       (case shouldAllowAccountResponse (channelId message) (id_cfg accountConfig)
                               now chains1 of
                          (False, chains2) \<Rightarrow> (Ignored, chains2)
                        | (True, chains2) \<Rightarrow>
                            let interactionKey = getInteractionKey (channelId message)
                                  (authorId message) (id_cfg accountConfig);
                                lastInteractionTime = map_of lastInteractionTimes interactionKey
                            in (Proceeds (channelWait DEVELOPMENT_MODE DEVELOPMENT_MAX_DELAY_MS canType
                                  (content message) isMentioned lastInteractionTime now
                                  (rndDelay draws) (rndTyping draws) (rndSafeTyping draws)),
                                chains2))))"

text \<open>
  \<^verbatim>\<open>toLowerCase\<close> on text whose letters are ASCII, for the worked examples below.
\<close>

definition asciiLower :: "code_unit \<Rightarrow> code_unit" where
  "asciiLower c = (if 0x41 \<le> c \<and> c \<le> 0x5A then c + 0x20 else c)"

definition asciiToLowerCase :: "js_string \<Rightarrow> js_string" where
  "asciiToLowerCase s = map asciiLower s"

subsection \<open>Runs of several calls\<close>

text \<open>
  The candidate replies of a list of accounts, each with the instant of its call, in one
  channel: the decisions of \<open>shouldAllowAccountResponse\<close> in order, and the final map.
\<close>

fun candidateReplies :: "string \<Rightarrow> (string \<times> int) list \<Rightarrow> chains \<Rightarrow> bool list \<times> chains" where
  "candidateReplies channel [] cs = ([], cs)"
| "candidateReplies channel ((account, now) # rest) cs =
     (let (ok, cs1) = shouldAllowAccountResponse channel account now cs;
          (oks, cs2) = candidateReplies channel rest cs1
      in (ok # oks, cs2))"

text \<open>
  The messages one account observes in one channel, each with the instant and the random
  draw of its call: the decisions of \<open>shouldAttachRedditImage\<close> in order, and the final maps.
\<close>

fun observedMessages ::
  "string \<Rightarrow> AccountConfig \<Rightarrow> (int \<times> rat) list \<Rightarrow> trackers \<Rightarrow> recent_images
     \<Rightarrow> bool list \<times> trackers \<times> recent_images" where
  "observedMessages channel cfg [] ts rs = ([], ts, rs)"
| "observedMessages channel cfg ((now, rnd) # rest) ts rs =
     (let (attach, ts1, rs1) = shouldAttachRedditImage channel cfg False now rnd ts rs;
          (attaches, ts2, rs2) = observedMessages channel cfg rest ts1 rs1
      in (attach # attaches, ts2, rs2))"

subsection \<open>Worked inputs\<close>

definition exampleMediaConfig :: AccountConfig where
  "exampleMediaConfig = \<lparr>id_cfg = ''bot1'', accountType = Bot,
     redditConfig = Some \<lparr>subreddits = [''aww''], minMessages = 3, maxMessages = 3, nsfw = False\<rparr>,
     interactionRate = None, messageFrequency = None, messageBehavior = None\<rparr>"

definition exampleRedditConfig :: RedditImageConfig where
  "exampleRedditConfig = \<lparr>subreddits = [''aww''], minMessages = 3, maxMessages = 3, nsfw = False\<rparr>"

definition exampleRepeatedImage :: RedditImageData where
  "exampleRepeatedImage = \<lparr>image_id = ''abc'', filename = ''r-aww_abc.jpg'', title = ''a cat'', subreddit = ''aww''\<rparr>"

definition exampleRepeatingFetch :: "nat \<Rightarrow> RedditImageData option" where
  "exampleRepeatingFetch k = Some exampleRepeatedImage"

definition exampleLegacyUser :: AccountConfig where
  "exampleLegacyUser = \<lparr>id_cfg = ''user1'', accountType = User, redditConfig = None,
     interactionRate = None, messageFrequency = Some High, messageBehavior = Some Aggressive\<rparr>"

definition exampleLongEmotionalText :: js_string where
  "exampleLongEmotionalText = replicate 98 0x61 @ u16 ''wow''"


definition exampleBotNoRate :: AccountConfig where
  "exampleBotNoRate = \<lparr>id_cfg = ''bot1'', accountType = Bot, redditConfig = None,
     interactionRate = None, messageFrequency = None, messageBehavior = None\<rparr>"

definition exampleClientUser :: ClientUser where
  "exampleClientUser = \<lparr>userId = ''900'', username = u16 ''Kin''\<rparr>"

definition exampleDirectMessage :: Message where
  "exampleDirectMessage = \<lparr>authorId = ''100'', authorBot = False, channelType = DM,
     channelId = ''d1'', content = u16 ''hello'', mentionedUserIds = []\<rparr>"

definition exampleDraws :: Draws where
  "exampleDraws = \<lparr>rndRespond1 = 0, rndRespond2 = 0, rndDelay = 1/2, rndTyping = 1/2,
     rndSafeTyping = 1/2\<rparr>"

definition exampleBotRate60 :: AccountConfig where
  "exampleBotRate60 = \<lparr>id_cfg = ''bot2'', accountType = Bot, redditConfig = None,
     interactionRate = Some 60, messageFrequency = None, messageBehavior = None\<rparr>"

section \<open>Properties\<close>

subsection \<open>Double arithmetic: rounding is monotone\<close>

lemma pow2_powi: "pow2 e = 2 powi e"
  by (simp add: pow2_def power_int_def field_simps)

lemma bitLength_bounds:
  "0 < n \<Longrightarrow> 2 ^ (bitLength n - 1) \<le> n \<and> n < 2 ^ bitLength n \<and> 0 < bitLength n"
proof (induction n rule: bitLength.induct)
  case (1 n)
  have pos: "\<not> n \<le> 0" using "1.prems" by simp
  have b: "bitLength n = Suc (bitLength (n div 2))"
    using pos by (simp add: bitLength.simps[of n])
  have d1: "2 * (n div 2) \<le> n" and d2: "n \<le> 2 * (n div 2) + 1" by presburger+
  show ?case
  proof (cases "n div 2 \<le> 0")
    case True
    then have "n = 1" using "1.prems" d2 by linarith
    then show ?thesis by (simp add: bitLength.simps[of 1] bitLength.simps[of 0])
  next
    case False
    then have ih: "2 ^ (bitLength (n div 2) - 1) \<le> n div 2" "n div 2 < 2 ^ bitLength (n div 2)"
      "0 < bitLength (n div 2)"
      using "1.IH"[OF pos] by simp_all
    obtain k where k: "bitLength (n div 2) = Suc k"
      using ih(3) by (cases "bitLength (n div 2)") auto
    have lo: "(2::int) ^ Suc k \<le> n" using ih(1) d1 by (simp add: k)
    have hi: "n < (2::int) ^ Suc (Suc k)" using ih(2) d2 by (simp add: k)
    show ?thesis using lo hi by (simp add: b k)
  qed
qed

lemma binaryExponent_bounds:
  assumes "0 < x"
  shows "2 powi binaryExponent x \<le> x" and "x < 2 powi (binaryExponent x + 1)"
proof -
  have "2 powi binaryExponent x \<le> x \<and> x < 2 powi (binaryExponent x + 1)"
  proof (cases "1 \<le> x")
    case True
    define n where "n = \<lfloor>x\<rfloor>"
    have n: "0 < n" using True by (simp add: n_def)
    define b where "b = bitLength n"
    have bb: "2 ^ (b - 1) \<le> n" "n < 2 ^ b" "0 < b"
      using bitLength_bounds[OF n] by (simp_all add: b_def)
    have e: "binaryExponent x = int (b - 1)"
      using True bb(3) by (simp add: binaryExponent_def n_def b_def)
    have e1: "binaryExponent x + 1 = int b" using e bb(3) by simp
    have "(of_int (2 ^ (b - 1)) :: rat) \<le> of_int n" using bb(1) by (simp only: of_int_le_iff)
    also have "\<dots> \<le> x" by (simp add: n_def)
    finally have lo: "(2::rat) ^ (b - 1) \<le> x" by simp
    have "n + 1 \<le> 2 ^ b" using bb(2) by simp
    then have "(of_int (n + 1) :: rat) \<le> of_int (2 ^ b)" by (simp only: of_int_le_iff)
    moreover have "x < of_int (n + 1)" using floor_correct[of x] by (simp add: n_def)
    ultimately have hi: "x < (2::rat) ^ b" by simp
    have p1: "(2::rat) powi binaryExponent x = 2 ^ (b - 1)" by (simp only: e power_int_of_nat)
    have p2: "(2::rat) powi (binaryExponent x + 1) = 2 ^ b" by (simp only: e1 power_int_of_nat)
    show ?thesis using lo hi by (simp only: p1 p2)
  next
    case False
    then have x1: "x < 1" by simp
    define y where "y = 1 / x"
    have y: "1 < y" using assms x1 by (simp add: y_def)
    define m where "m = \<lceil>y\<rceil> - 1"
    have m: "0 < m" using y by (simp add: m_def less_ceiling_iff)
    have my: "of_int m < y" using ceiling_correct[of y] by (simp add: m_def)
    have ym: "y \<le> of_int (m + 1)" by (simp add: m_def)
    define b where "b = bitLength m"
    have bb: "2 ^ (b - 1) \<le> m" "m < 2 ^ b" "0 < b"
      using bitLength_bounds[OF m] by (simp_all add: b_def)
    have e: "binaryExponent x = - int b"
      using False by (simp add: binaryExponent_def m_def y_def b_def)
    have e1: "binaryExponent x + 1 = - int (b - 1)" using e bb(3) by simp
    have "m + 1 \<le> 2 ^ b" using bb(2) by simp
    then have "(of_int (m + 1) :: rat) \<le> of_int (2 ^ b)" by (simp only: of_int_le_iff)
    with ym have "y \<le> 2 ^ b" by simp
    then have lo: "1 / 2 ^ b \<le> x" using assms by (simp add: y_def field_simps)
    have "(2::rat) ^ (b - 1) \<le> of_int m" using bb(1) by simp
    then have "2 ^ (b - 1) < y" using my by (rule le_less_trans)
    then have hi: "x < 1 / 2 ^ (b - 1)" using assms by (simp add: y_def field_simps)
    have p1: "(2::rat) powi binaryExponent x = 1 / 2 ^ b"
      by (simp only: e power_int_minus power_int_of_nat inverse_eq_divide)
    have p2: "(2::rat) powi (binaryExponent x + 1) = 1 / 2 ^ (b - 1)"
      by (simp only: e1 power_int_minus power_int_of_nat inverse_eq_divide)
    show ?thesis using lo hi by (simp only: p1 p2)
  qed
  then show "2 powi binaryExponent x \<le> x" and "x < 2 powi (binaryExponent x + 1)" by simp_all
qed

lemma binaryExponent_mono:
  assumes "0 < x" "x \<le> y"
  shows "binaryExponent x \<le> binaryExponent y"
proof (rule ccontr)
  assume "\<not> binaryExponent x \<le> binaryExponent y"
  then have "binaryExponent y + 1 \<le> binaryExponent x" by simp
  then have "(2::rat) powi (binaryExponent y + 1) \<le> 2 powi binaryExponent x"
    by (intro power_int_increasing) simp_all
  moreover have "y < 2 powi (binaryExponent y + 1)"
    using binaryExponent_bounds(2)[of y] assms by simp
  moreover have "2 powi binaryExponent x \<le> x" using binaryExponent_bounds(1)[OF assms(1)] .
  ultimately show False using assms(2) by linarith
qed

lemma roundHalfEven_ge: "of_int n \<le> x \<Longrightarrow> n \<le> roundHalfEven x"
proof -
  assume "of_int n \<le> x"
  then have "n \<le> \<lfloor>x\<rfloor>" by (simp add: le_floor_iff)
  then show ?thesis by (simp add: roundHalfEven_def Let_def)
qed

lemma roundHalfEven_le: "x \<le> of_int n \<Longrightarrow> roundHalfEven x \<le> n"
proof (cases "x = of_int n")
  case True
  then show ?thesis by (simp add: roundHalfEven_def Let_def)
next
  case False
  assume "x \<le> of_int n"
  with False have "x < of_int n" by simp
  then have "\<lfloor>x\<rfloor> < n" by (simp add: floor_less_iff)
  then show ?thesis by (simp add: roundHalfEven_def Let_def)
qed

lemma roundHalfEven_mono: "x \<le> y \<Longrightarrow> roundHalfEven x \<le> roundHalfEven y"
proof -
  assume xy: "x \<le> y"
  have fl: "\<lfloor>x\<rfloor> \<le> \<lfloor>y\<rfloor>" using xy by (rule floor_mono)
  show ?thesis
  proof (cases "\<lfloor>x\<rfloor> = \<lfloor>y\<rfloor>")
    case True
    then have "x - of_int \<lfloor>x\<rfloor> \<le> y - of_int \<lfloor>y\<rfloor>" using xy by simp
    then show ?thesis using True by (auto simp add: roundHalfEven_def Let_def)
  next
    case False
    then have "\<lfloor>x\<rfloor> + 1 \<le> \<lfloor>y\<rfloor>" using fl by simp
    moreover have "roundHalfEven x \<le> \<lfloor>x\<rfloor> + 1" by (simp add: roundHalfEven_def Let_def)
    moreover have "\<lfloor>y\<rfloor> \<le> roundHalfEven y" by (simp add: roundHalfEven_def Let_def)
    ultimately show ?thesis by linarith
  qed
qed

lemma roundDouble_nonneg: "0 \<le> x \<Longrightarrow> 0 \<le> roundDouble x"
proof (cases "x = 0")
  case True
  then show ?thesis by (simp add: roundDouble_def)
next
  case False
  assume "0 \<le> x"
  define u where "u = pow2 (max (binaryExponent \<bar>x\<bar>) (- 1022) - 52)"
  have u: "0 < u" by (simp add: u_def pow2_powi)
  have "of_int 0 \<le> x / u" using \<open>0 \<le> x\<close> u by simp
  then have "0 \<le> roundHalfEven (x / u)" by (rule roundHalfEven_ge)
  then show ?thesis using False u by (simp add: roundDouble_def Let_def u_def[symmetric])
qed

lemma roundDouble_upper:
  assumes "0 < x"
  shows "roundDouble x \<le> 2 powi (max (binaryExponent x) (- 1022) + 1)"
proof -
  define e where "e = max (binaryExponent x) (- 1022)"
  define u :: rat where "u = 2 powi (e - 52)"
  have u: "0 < u" by (simp add: u_def)
  have i: "53 + (e - 52) = e + 1" by simp
  have split: "(2::rat) powi (e + 1) = 2 powi 53 * u"
    using power_int_add[of "2::rat" 53 "e - 52"] unfolding i u_def by simp
  have "x < 2 powi (binaryExponent x + 1)" using binaryExponent_bounds(2)[OF assms] .
  also have "\<dots> \<le> 2 powi (e + 1)" by (intro power_int_increasing) (simp_all add: e_def)
  finally have "x < 2 powi 53 * u" unfolding split .
  then have "x / u < 2 powi 53" using u by (simp add: pos_divide_less_eq)
  then have "x / u \<le> of_int (2 ^ 53)" by simp
  then have "roundHalfEven (x / u) \<le> 2 ^ 53" by (rule roundHalfEven_le)
  then have "(of_int (roundHalfEven (x / u)) :: rat) \<le> of_int (2 ^ 53)" by (simp only: of_int_le_iff)
  then have "of_int (roundHalfEven (x / u)) * u \<le> 2 powi 53 * u" using u by simp
  then show ?thesis
    using assms by (simp add: roundDouble_def Let_def pow2_powi e_def[symmetric] u_def[symmetric] split)
qed

lemma roundDouble_lower:
  assumes "0 < y" "- 1022 \<le> binaryExponent y"
  shows "2 powi binaryExponent y \<le> roundDouble y"
proof -
  define e where "e = binaryExponent y"
  define u :: rat where "u = 2 powi (e - 52)"
  have u: "0 < u" by (simp add: u_def)
  have i: "52 + (e - 52) = e" by simp
  have split: "(2::rat) powi e = 2 powi 52 * u"
    using power_int_add[of "2::rat" 52 "e - 52"] unfolding i u_def by simp
  have "2 powi e \<le> y" using binaryExponent_bounds(1)[OF assms(1)] by (simp add: e_def)
  then have "2 powi 52 * u \<le> y" unfolding split .
  then have "of_int (2 ^ 52) \<le> y / u" using u by (simp add: pos_le_divide_eq)
  then have "2 ^ 52 \<le> roundHalfEven (y / u)" by (rule roundHalfEven_ge)
  then have "(of_int (2 ^ 52) :: rat) \<le> of_int (roundHalfEven (y / u))" by (simp only: of_int_le_iff)
  then have "2 powi 52 * u \<le> of_int (roundHalfEven (y / u)) * u" using u by simp
  moreover have "max e (- 1022) = e" using assms(2) by (simp add: e_def)
  ultimately show ?thesis
    using assms(1) by (simp add: roundDouble_def Let_def pow2_powi e_def[symmetric] u_def[symmetric] split)
qed

lemma roundDouble_mono_pos:
  assumes "0 < x" "x \<le> y"
  shows "roundDouble x \<le> roundDouble y"
proof -
  have y: "0 < y" using assms by simp
  define ex where "ex = max (binaryExponent x) (- 1022)"
  define ey where "ey = max (binaryExponent y) (- 1022)"
  have le: "ex \<le> ey" using binaryExponent_mono[OF assms] by (simp add: ex_def ey_def)
  show ?thesis
  proof (cases "ex = ey")
    case True
    then have exy: "max (binaryExponent x) (- 1022) = ey" by (simp add: ex_def)
    define u where "u = pow2 (ey - 52)"
    have u: "0 < u" by (simp add: u_def pow2_powi)
    have "x / u \<le> y / u" using assms(2) u by (simp add: divide_right_mono)
    then have "roundHalfEven (x / u) \<le> roundHalfEven (y / u)" by (rule roundHalfEven_mono)
    then have "(of_int (roundHalfEven (x / u)) :: rat) * u \<le> of_int (roundHalfEven (y / u)) * u"
      using u by simp
    then show ?thesis
      using assms(1) y
      by (simp add: roundDouble_def Let_def exy ey_def[symmetric] u_def[symmetric])
  next
    case False
    then have lt: "ex + 1 \<le> ey" using le by simp
    then have ey': "ey = binaryExponent y" "- 1022 \<le> binaryExponent y"
      by (simp_all add: ex_def ey_def)
    have "roundDouble x \<le> 2 powi (ex + 1)" using roundDouble_upper[OF assms(1)] by (simp add: ex_def)
    also have "\<dots> \<le> 2 powi ey" using lt by (intro power_int_increasing) simp_all
    also have "\<dots> \<le> roundDouble y" using roundDouble_lower[OF y ey'(2)] by (simp add: ey'(1))
    finally show ?thesis .
  qed
qed

lemma roundDouble_mono: "0 \<le> x \<Longrightarrow> x \<le> y \<Longrightarrow> roundDouble x \<le> roundDouble y"
proof (cases "x = 0")
  case True
  assume "x \<le> y"
  then show ?thesis using True roundDouble_nonneg[of y] by (simp add: roundDouble_def)
next
  case False
  assume "0 \<le> x" "x \<le> y"
  then show ?thesis using False roundDouble_mono_pos[of x y] by simp
qed

text \<open>Two values every JavaScript console shows.\<close>

lemma roundDouble_one_tenth: "roundDouble 0.1 = 3602879701896397 / 2 ^ 55"
  by code_simp

lemma addD_tenth_two_tenths: "addD (roundDouble 0.1) (roundDouble 0.2) = roundDouble 0.3 + pow2 (- 54)"
  by code_simp

subsection \<open>Chain guard\<close>

lemma map_of_filter_update:
  "P (k, v) \<Longrightarrow> map_of (filter P (AList.update k v al)) k = Some v"
  by (induction al) auto

text \<open>The sweep never drops the entry that was just written: its activity is \<open>now\<close>.\<close>

lemma recordAccountResponse_lookup:
  "map_of (recordAccountResponse ch a now cd cs) ch
     = Some (cd\<lparr>lastAccountId := a, lastActivity := now\<rparr>)"
  by (simp add: recordAccountResponse_def Let_def map_of_filter_update
        BOT_CHAIN_INACTIVITY_RESET_MS_def AList.update_conv')

lemma allow_fresh:
  assumes "ch \<noteq> []" "map_of cs ch = None"
  shows "fst (shouldAllowAccountResponse ch a now cs)"
    and "map_of (snd (shouldAllowAccountResponse ch a now cs)) ch
           = Some \<lparr>chainCount = 1, lastAccountId = a, lastActivity = now\<rparr>"
  using assms
  by (simp_all add: shouldAllowAccountResponse_def Let_def recordAccountResponse_lookup)

lemma allow_stale:
  assumes "ch \<noteq> []" "map_of cs ch = Some e"
    and "BOT_CHAIN_INACTIVITY_RESET_MS < now - lastActivity e"
  shows "fst (shouldAllowAccountResponse ch a now cs)"
    and "map_of (snd (shouldAllowAccountResponse ch a now cs)) ch
           = Some \<lparr>chainCount = 1, lastAccountId = a, lastActivity = now\<rparr>"
  using assms
  by (simp_all add: shouldAllowAccountResponse_def Let_def recordAccountResponse_lookup)

lemma allow_same_below_limit:
  assumes "ch \<noteq> []" "a \<noteq> []"
    and "map_of cs ch = Some \<lparr>chainCount = n, lastAccountId = a, lastActivity = t\<rparr>"
    and "now - t \<le> BOT_CHAIN_INACTIVITY_RESET_MS" "n < MAX_BOT_CHAIN"
  shows "fst (shouldAllowAccountResponse ch a now cs)"
    and "map_of (snd (shouldAllowAccountResponse ch a now cs)) ch
           = Some \<lparr>chainCount = n + 1, lastAccountId = a, lastActivity = now\<rparr>"
  using assms
  by (simp_all add: shouldAllowAccountResponse_def Let_def recordAccountResponse_lookup)

lemma block_same_at_limit:
  assumes "ch \<noteq> []" "a \<noteq> []"
    and "map_of cs ch = Some \<lparr>chainCount = n, lastAccountId = a, lastActivity = t\<rparr>"
    and "now - t \<le> BOT_CHAIN_INACTIVITY_RESET_MS" "MAX_BOT_CHAIN \<le> n"
  shows "shouldAllowAccountResponse ch a now cs = (False, cs)"
  using assms by (simp add: shouldAllowAccountResponse_def Let_def AList.update_triv)

lemma allow_other:
  assumes "ch \<noteq> []" "b \<noteq> a"
    and "map_of cs ch = Some \<lparr>chainCount = n, lastAccountId = a, lastActivity = t\<rparr>"
  shows "fst (shouldAllowAccountResponse ch b now cs)"
    and "map_of (snd (shouldAllowAccountResponse ch b now cs)) ch
           = Some \<lparr>chainCount = 1, lastAccountId = b, lastActivity = now\<rparr>"
  using assms
  by (auto simp add: shouldAllowAccountResponse_def Let_def recordAccountResponse_lookup)

text \<open>
  Claim C3. In a non-direct channel (a non-empty channel id) whose chain entry is absent
  (never written, or deleted by a human message) or older than the inactivity window, let
  account \<open>A\<close> (account ids are never empty) offer four replies at \<open>t1\<close>, ..., \<open>t4\<close>, no two
  successive ones more than the inactivity window of 10 minutes apart, and then a different
  account \<open>B\<close> offer one at any instant \<open>t5\<close>. The first three replies of \<open>A\<close> are allowed, the
  fourth is blocked, the reply of \<open>B\<close> is allowed, and the stored entry then names \<open>B\<close> with
  count 1.
\<close>

theorem chain_blocks_fourth_reply_and_resets_for_other:
  assumes ch: "channel \<noteq> []" and a: "A \<noteq> []" and b: "B \<noteq> A"
    and start: "map_of chains0 channel = None
        \<or> (\<exists>e. map_of chains0 channel = Some e
                 \<and> BOT_CHAIN_INACTIVITY_RESET_MS < t1 - lastActivity e)"
    and gaps: "t2 - t1 \<le> BOT_CHAIN_INACTIVITY_RESET_MS" "t3 - t2 \<le> BOT_CHAIN_INACTIVITY_RESET_MS"
      "t4 - t3 \<le> BOT_CHAIN_INACTIVITY_RESET_MS"
  shows "fst (candidateReplies channel [(A, t1), (A, t2), (A, t3), (A, t4), (B, t5)] chains0)
           = [True, True, True, False, True]
       \<and> map_of (snd (candidateReplies channel
             [(A, t1), (A, t2), (A, t3), (A, t4), (B, t5)] chains0)) channel
           = Some \<lparr>chainCount = 1, lastAccountId = B, lastActivity = t5\<rparr>"
proof -
  define s1 where "s1 = shouldAllowAccountResponse channel A t1 chains0"
  define s2 where "s2 = shouldAllowAccountResponse channel A t2 (snd s1)"
  define s3 where "s3 = shouldAllowAccountResponse channel A t3 (snd s2)"
  define s4 where "s4 = shouldAllowAccountResponse channel A t4 (snd s3)"
  define s5 where "s5 = shouldAllowAccountResponse channel B t5 (snd s4)"
  have r1: "fst s1"
    "map_of (snd s1) channel = Some \<lparr>chainCount = 1, lastAccountId = A, lastActivity = t1\<rparr>"
    unfolding s1_def using start allow_fresh[OF ch, of chains0 A t1] allow_stale[OF ch, of chains0 _ t1 A]
    by blast+
  have r2: "fst s2"
    "map_of (snd s2) channel = Some \<lparr>chainCount = 2, lastAccountId = A, lastActivity = t2\<rparr>"
    unfolding s2_def using allow_same_below_limit[OF ch a r1(2), of t2] gaps
    by (simp_all add: MAX_BOT_CHAIN_def)
  have r3: "fst s3"
    "map_of (snd s3) channel = Some \<lparr>chainCount = 3, lastAccountId = A, lastActivity = t3\<rparr>"
    unfolding s3_def using allow_same_below_limit[OF ch a r2(2), of t3] gaps
    by (simp_all add: MAX_BOT_CHAIN_def)
  have r4: "s4 = (False, snd s3)"
    unfolding s4_def using block_same_at_limit[OF ch a r3(2), of t4] gaps
    by (simp add: MAX_BOT_CHAIN_def)
  have r5: "fst s5"
    "map_of (snd s5) channel = Some \<lparr>chainCount = 1, lastAccountId = B, lastActivity = t5\<rparr>"
    unfolding s5_def using allow_other[OF ch b, of "snd s4" 3 t3 t5] r3(2) r4 by simp_all
  have run: "candidateReplies channel [(A, t1), (A, t2), (A, t3), (A, t4), (B, t5)] chains0
      = ([fst s1, fst s2, fst s3, fst s4, fst s5], snd s5)"
    by (simp add: s1_def s2_def s3_def s4_def s5_def Let_def split_beta)
  show ?thesis unfolding run using r1 r2 r3 r4 r5 by simp
qed

theorem chain_blocks_fourth_reply_witness:
  "''c1'' \<noteq> [] \<and> ''bot1'' \<noteq> [] \<and> ''bot2'' \<noteq> ''bot1'' \<and> map_of ([] :: chains) ''c1'' = None
   \<and> (1700000060000 :: int) - 1700000000000 \<le> BOT_CHAIN_INACTIVITY_RESET_MS
   \<and> (1700000120000 :: int) - 1700000060000 \<le> BOT_CHAIN_INACTIVITY_RESET_MS
   \<and> (1700000180000 :: int) - 1700000120000 \<le> BOT_CHAIN_INACTIVITY_RESET_MS
   \<and> fst (candidateReplies ''c1'' [(''bot1'', 1700000000000), (''bot1'', 1700000060000),
        (''bot1'', 1700000120000), (''bot1'', 1700000180000), (''bot2'', 1700000181000)] [])
           = [True, True, True, False, True]
   \<and> map_of (snd (candidateReplies ''c1'' [(''bot1'', 1700000000000),
        (''bot1'', 1700000060000), (''bot1'', 1700000120000), (''bot1'', 1700000180000),
        (''bot2'', 1700000181000)] [])) ''c1''
       = Some \<lparr>chainCount = 1, lastAccountId = ''bot2'', lastActivity = 1700000181000\<rparr>"
  using chain_blocks_fourth_reply_and_resets_for_other[where channel = "''c1''"
      and A = "''bot1''" and B = "''bot2''" and ?chains0.0 = "[]"
      and ?t1.0 = 1700000000000 and ?t2.0 = 1700000060000 and ?t3.0 = 1700000120000
      and ?t4.0 = 1700000180000 and ?t5.0 = 1700000181000]
  by (simp del: candidateReplies.simps add: BOT_CHAIN_INACTIVITY_RESET_MS_def)

text \<open>
  Claim C10. A call of \<open>shouldAllowAccountResponse\<close> that returns false leaves the whole chain
  map as it was: no count, last account or last activity changes and no entry is swept.
\<close>

theorem blocked_reply_leaves_chains_unchanged:
  "\<not> fst (shouldAllowAccountResponse channel account now accountToAccountChains)
   \<Longrightarrow> snd (shouldAllowAccountResponse channel account now accountToAccountChains)
         = accountToAccountChains"
  by (auto simp: shouldAllowAccountResponse_def Let_def AList.update_triv
        split: if_splits option.splits)

theorem blocked_reply_leaves_chains_unchanged_witness:
  "\<not> fst (shouldAllowAccountResponse ''c1'' ''bot1'' 1700000180000
        [(''c1'', \<lparr>chainCount = 3, lastAccountId = ''bot1'', lastActivity = 1700000120000\<rparr>)])
   \<and> snd (shouldAllowAccountResponse ''c1'' ''bot1'' 1700000180000
        [(''c1'', \<lparr>chainCount = 3, lastAccountId = ''bot1'', lastActivity = 1700000120000\<rparr>)])
       = [(''c1'', \<lparr>chainCount = 3, lastAccountId = ''bot1'', lastActivity = 1700000120000\<rparr>)]"
proof -
  have blocked: "\<not> fst (shouldAllowAccountResponse ''c1'' ''bot1'' 1700000180000
        [(''c1'', \<lparr>chainCount = 3, lastAccountId = ''bot1'', lastActivity = 1700000120000\<rparr>)])"
    by (simp add: shouldAllowAccountResponse_def Let_def BOT_CHAIN_INACTIVITY_RESET_MS_def
          MAX_BOT_CHAIN_def)
  from blocked blocked_reply_leaves_chains_unchanged[OF blocked] show ?thesis by simp
qed

subsection \<open>Media cadence and recency cache\<close>

lemma map_of_filter_keep:
  "map_of al k = Some v \<Longrightarrow> P (k, v) \<Longrightarrow> map_of (filter P al) k = Some v"
  by (induction al) (auto split: if_splits)

lemma attach_first_message:
  assumes "redditConfig cfg = Some rc" "subreddits rc \<noteq> []" "map_of ts ch = None"
  shows "fst (shouldAttachRedditImage ch cfg False now rnd ts rs) = False"
    and "map_of (fst (snd (shouldAttachRedditImage ch cfg False now rnd ts rs))) ch
           = Some \<lparr>messageCount = 1, targetMessageCount = rollTargetCount rc rnd, lastImageTime = 0\<rparr>"
  using assms
  by (simp_all add: shouldAttachRedditImage_def Let_def sweepTrackers_def map_of_filter_keep
        AList.update_conv' staleTracker_def)

lemma attach_below_target:
  assumes "redditConfig cfg = Some rc" "subreddits rc \<noteq> []" "map_of ts ch = Some tr"
    "messageCount tr + 1 < targetMessageCount tr"
  shows "shouldAttachRedditImage ch cfg False now rnd ts rs
           = (False, AList.update ch (tr\<lparr>messageCount := messageCount tr + 1\<rparr>) ts, rs)"
  using assms by (simp add: shouldAttachRedditImage_def Let_def)

lemma attach_at_target:
  assumes "redditConfig cfg = Some rc" "subreddits rc \<noteq> []" "map_of ts ch = Some tr"
    "targetMessageCount tr \<le> messageCount tr + 1"
  shows "shouldAttachRedditImage ch cfg False now rnd ts rs
           = (True, AList.update ch \<lparr>messageCount = 0, targetMessageCount = rollTargetCount rc rnd,
                lastImageTime = now\<rparr> ts, rs)"
  using assms by (simp add: shouldAttachRedditImage_def Let_def)

text \<open>
  When the target rolled for the first message is 3, the third message attaches: the run is
  false, false, true, and the tracker is reset with a new target and the instant of the
  third call.
\<close>

lemma third_message_attaches_when_target_is_three:
  assumes cfg: "redditConfig cfg = Some rc" "subreddits rc \<noteq> []"
    and fresh: "map_of trackers0 channel = None"
    and roll1: "rollTargetCount rc r1 = 3"
  shows "fst (observedMessages channel cfg [(t1, r1), (t2, r2), (t3, r3)] trackers0 recent0)
           = [False, False, True]
       \<and> map_of (fst (snd (observedMessages channel cfg [(t1, r1), (t2, r2), (t3, r3)]
             trackers0 recent0))) channel
           = Some \<lparr>messageCount = 0, targetMessageCount = rollTargetCount rc r3, lastImageTime = t3\<rparr>"
proof -
  define s1 where "s1 = shouldAttachRedditImage channel cfg False t1 r1 trackers0 recent0"
  define s2 where "s2 = shouldAttachRedditImage channel cfg False t2 r2 (fst (snd s1)) (snd (snd s1))"
  define s3 where "s3 = shouldAttachRedditImage channel cfg False t3 r3 (fst (snd s2)) (snd (snd s2))"
  have a1: "fst s1 = False"
    "map_of (fst (snd s1)) channel = Some \<lparr>messageCount = 1, targetMessageCount = 3, lastImageTime = 0\<rparr>"
    unfolding s1_def using attach_first_message[OF cfg fresh, of t1 r1 recent0] roll1 by simp_all
  have a2: "s2 = (False, AList.update channel \<lparr>messageCount = 2, targetMessageCount = 3, lastImageTime = 0\<rparr>
                (fst (snd s1)), snd (snd s1))"
    unfolding s2_def using attach_below_target[OF cfg a1(2), of t2 r2 "snd (snd s1)"] by simp
  have l2: "map_of (fst (snd s2)) channel = Some \<lparr>messageCount = 2, targetMessageCount = 3, lastImageTime = 0\<rparr>"
    by (simp add: a2 AList.update_conv')
  have a3: "s3 = (True, AList.update channel \<lparr>messageCount = 0, targetMessageCount = rollTargetCount rc r3,
                lastImageTime = t3\<rparr> (fst (snd s2)), snd (snd s2))"
    unfolding s3_def using attach_at_target[OF cfg l2, of t3 r3 "snd (snd s2)"] by simp
  have run: "observedMessages channel cfg [(t1, r1), (t2, r2), (t3, r3)] trackers0 recent0
      = ([fst s1, fst s2, fst s3], snd s3)"
    by (simp add: s1_def s2_def s3_def Let_def split_beta)
  show ?thesis unfolding run using a1(1) a2 a3 by (simp add: AList.update_conv')
qed

lemma rollTargetCount_half: "rollTargetCount exampleRedditConfig (1/2) = 3"
  unfolding rollTargetCount_def exampleRedditConfig_def by code_simp

lemma rollTargetCount_largest_draw: "rollTargetCount exampleRedditConfig (1 - 1 / 2 ^ 52) = 4"
  unfolding rollTargetCount_def exampleRedditConfig_def by code_simp

text \<open>
  Claim C8. With \<open>minMessages = maxMessages = 3\<close>, no forced image and a channel without a
  tracker, the first and the second message return false and the third returns true. The
  code rolls the target as the floor of the double \<open>rnd * (max - min + 1) + min\<close>. For the
  largest value \<^verbatim>\<open>Math.random()\<close> returns, \<open>1 - 1 / 2 ^ 52\<close>, the sum \<open>4 - 1 / 2 ^ 52\<close> lies
  halfway between two doubles and rounds to \<open>4\<close>: the first message rolls the target 4,
  above \<open>maxMessages\<close>, and the third message returns false.
\<close>

theorem largest_draw_rolls_target_above_max:
  "redditConfig exampleMediaConfig = Some exampleRedditConfig
   \<and> minMessages exampleRedditConfig = 3 \<and> maxMessages exampleRedditConfig = 3
   \<and> (0::rat) \<le> 1 - 1 / 2 ^ 52 \<and> (1 - 1 / 2 ^ 52 :: rat) < 1
   \<and> rollTargetCount exampleRedditConfig (1 - 1 / 2 ^ 52) = 4
   \<and> fst (observedMessages ''c1'' exampleMediaConfig
        [(1700000000000, 1 - 1 / 2 ^ 52), (1700000001000, 1/2), (1700000002000, 1/2)] [] [])
       = [False, False, False]
   \<and> map_of (fst (snd (observedMessages ''c1'' exampleMediaConfig
        [(1700000000000, 1 - 1 / 2 ^ 52), (1700000001000, 1/2), (1700000002000, 1/2)] [] []))) ''c1''
       = Some \<lparr>messageCount = 3, targetMessageCount = 4, lastImageTime = 0\<rparr>"
proof -
  let ?r = "1 - 1 / 2 ^ 52 :: rat"
  have cfg: "redditConfig exampleMediaConfig = Some exampleRedditConfig"
    "subreddits exampleRedditConfig \<noteq> []"
    by (simp_all add: exampleMediaConfig_def exampleRedditConfig_def)
  have bounds: "minMessages exampleRedditConfig = 3" "maxMessages exampleRedditConfig = 3"
    by (simp_all add: exampleRedditConfig_def)
  have fresh: "map_of ([] :: trackers) ''c1'' = None" by simp
  define s1 where "s1 = shouldAttachRedditImage ''c1'' exampleMediaConfig False 1700000000000 ?r [] []"
  define s2 where "s2 = shouldAttachRedditImage ''c1'' exampleMediaConfig False 1700000001000 (1/2)
      (fst (snd s1)) (snd (snd s1))"
  define s3 where "s3 = shouldAttachRedditImage ''c1'' exampleMediaConfig False 1700000002000 (1/2)
      (fst (snd s2)) (snd (snd s2))"
  have a1: "fst s1 = False"
    "map_of (fst (snd s1)) ''c1'' = Some \<lparr>messageCount = 1, targetMessageCount = 4, lastImageTime = 0\<rparr>"
    unfolding s1_def
    using attach_first_message[OF cfg fresh, of 1700000000000 ?r "[]"] rollTargetCount_largest_draw
    by simp_all
  have a2: "s2 = (False, AList.update ''c1'' \<lparr>messageCount = 2, targetMessageCount = 4, lastImageTime = 0\<rparr>
                (fst (snd s1)), snd (snd s1))"
    unfolding s2_def using attach_below_target[OF cfg a1(2), of 1700000001000 "1/2" "snd (snd s1)"] by simp
  have l2: "map_of (fst (snd s2)) ''c1'' = Some \<lparr>messageCount = 2, targetMessageCount = 4, lastImageTime = 0\<rparr>"
    by (simp add: a2 AList.update_conv')
  have a3: "s3 = (False, AList.update ''c1'' \<lparr>messageCount = 3, targetMessageCount = 4, lastImageTime = 0\<rparr>
                (fst (snd s2)), snd (snd s2))"
    unfolding s3_def using attach_below_target[OF cfg l2, of 1700000002000 "1/2" "snd (snd s2)"] by simp
  have run: "observedMessages ''c1'' exampleMediaConfig
        [(1700000000000, ?r), (1700000001000, 1/2), (1700000002000, 1/2)] [] []
      = ([fst s1, fst s2, fst s3], snd s3)"
    by (simp add: s1_def s2_def s3_def Let_def split_beta)
  have range: "(0::rat) \<le> ?r" "?r < 1" by simp_all
  show ?thesis
    unfolding run using cfg(1) bounds range rollTargetCount_largest_draw a1(1) a2 a3
    by (simp add: AList.update_conv')
qed

lemma uniqueFetchLoop_exhausted:
  assumes "\<forall>k. attempt \<le> k \<and> k < MAX_UNIQUE_IMAGE_FETCH_ATTEMPTS
             \<longrightarrow> (case fetch k of None \<Rightarrow> True | Some img \<Rightarrow> image_id img \<in> set ids)"
  shows "uniqueFetchLoop fetch ids attempt = None"
  using assms
proof (induction fetch ids attempt rule: uniqueFetchLoop.induct)
  case (1 fetch ids attempt)
  show ?case
  proof (cases "attempt < MAX_UNIQUE_IMAGE_FETCH_ATTEMPTS")
    case False
    then show ?thesis by (simp add: uniqueFetchLoop.simps[of fetch ids attempt])
  next
    case True
    have here: "case fetch attempt of None \<Rightarrow> True | Some img \<Rightarrow> image_id img \<in> set ids"
      using "1.prems" True by simp
    have rest: "\<forall>k. attempt + 1 \<le> k \<and> k < MAX_UNIQUE_IMAGE_FETCH_ATTEMPTS
             \<longrightarrow> (case fetch k of None \<Rightarrow> True | Some img \<Rightarrow> image_id img \<in> set ids)"
      using "1.prems" by simp
    show ?thesis
    proof (cases "fetch attempt")
      case None
      then show ?thesis
        using True "1.IH"(1)[OF True None rest] by (simp add: uniqueFetchLoop.simps[of fetch ids attempt])
    next
      case (Some img)
      then have "image_id img \<in> set ids" using here by simp
      then show ?thesis
        using True Some "1.IH"(2)[OF True Some _ rest]
        by (simp add: uniqueFetchLoop.simps[of fetch ids attempt])
    qed
  qed
qed

lemma getUnseen_None_final_failed:
  assumes "redditConfig cfg = Some rc" "subreddits rc \<noteq> []"
    and "fst (getUnseenRandomRedditImage cfg ch f recent) = None"
  shows "f MAX_UNIQUE_IMAGE_FETCH_ATTEMPTS = None"
  using assms by (auto simp: getUnseenRandomRedditImage_def Let_def split: option.splits)

text \<open>
  Claim C9. With media configured, if the first six fetches of a run all succeed with an
  image whose id is already in the channel's recency list, the run returns the image of
  the sixth fetch (the one after the 5 attempts of the loop) and stores its id in front of
  the list, cut to 30 entries. No branch of the function raises. And whatever the fetches
  are, the run returns nothing only if that sixth fetch returned nothing.
\<close>

theorem repeated_image_still_returned:
  assumes cfg: "redditConfig cfg = Some rc" "subreddits rc \<noteq> []"
    and ids: "recentlySentIds = (case map_of recent channel of Some ids \<Rightarrow> ids | None \<Rightarrow> [])"
    and repeats: "\<forall>k \<le> MAX_UNIQUE_IMAGE_FETCH_ATTEMPTS.
                    \<exists>img. fetch k = Some img \<and> image_id img \<in> set recentlySentIds"
  shows "(\<exists>img. fetch 5 = Some img
            \<and> getUnseenRandomRedditImage cfg channel fetch recent
                = (Some img, AList.update channel (take 30 (image_id img # recentlySentIds)) recent))
       \<and> (\<forall>f. fst (getUnseenRandomRedditImage cfg channel f recent) = None
                \<longrightarrow> f 5 = None)"
proof -
  have loop: "uniqueFetchLoop fetch recentlySentIds 0 = None"
  proof (rule uniqueFetchLoop_exhausted, intro allI impI)
    fix k assume "0 \<le> k \<and> k < MAX_UNIQUE_IMAGE_FETCH_ATTEMPTS"
    then obtain img where "fetch k = Some img" "image_id img \<in> set recentlySentIds"
      using repeats by (meson less_imp_le)
    then show "case fetch k of None \<Rightarrow> True | Some img \<Rightarrow> image_id img \<in> set recentlySentIds"
      by simp
  qed
  obtain img where img: "fetch MAX_UNIQUE_IMAGE_FETCH_ATTEMPTS = Some img"
    using repeats by blast
  have res: "getUnseenRandomRedditImage cfg channel fetch recent
      = (Some img, AList.update channel (take 30 (image_id img # recentlySentIds)) recent)"
    using cfg loop img ids
    by (simp add: getUnseenRandomRedditImage_def Let_def rememberImage_def
          RECENTLY_SENT_IMAGE_CACHE_SIZE_def)
  have final: "\<forall>f. fst (getUnseenRandomRedditImage cfg channel f recent) = None \<longrightarrow> f 5 = None"
    using getUnseen_None_final_failed[OF cfg] by (simp add: MAX_UNIQUE_IMAGE_FETCH_ATTEMPTS_def)
  show ?thesis using img res final by (simp add: MAX_UNIQUE_IMAGE_FETCH_ATTEMPTS_def)
qed

theorem repeated_image_still_returned_witness:
  "redditConfig exampleMediaConfig = Some \<lparr>subreddits = [''aww''], minMessages = 3, maxMessages = 3, nsfw = False\<rparr>
   \<and> exampleRepeatingFetch 0 = Some exampleRepeatedImage
   \<and> exampleRepeatingFetch 4 = Some exampleRepeatedImage
   \<and> exampleRepeatingFetch 5 = Some exampleRepeatedImage
   \<and> image_id exampleRepeatedImage \<in> set [''xyz'', ''abc'']
   \<and> getUnseenRandomRedditImage exampleMediaConfig ''c1'' exampleRepeatingFetch [(''c1'', [''xyz'', ''abc''])]
        = (Some exampleRepeatedImage, [(''c1'', [''abc'', ''xyz'', ''abc''])])"
proof -
  have cfg: "redditConfig exampleMediaConfig
      = Some \<lparr>subreddits = [''aww''], minMessages = 3, maxMessages = 3, nsfw = False\<rparr>"
    by (simp add: exampleMediaConfig_def)
  have sub: "subreddits \<lparr>subreddits = [''aww''], minMessages = 3, maxMessages = 3, nsfw = False\<rparr> \<noteq> []"
    by simp
  have ids: "[''xyz'', ''abc''] = (case map_of [(''c1'', [''xyz'', ''abc''])] ''c1'' of
      Some ids \<Rightarrow> ids | None \<Rightarrow> [])"
    by simp
  have rep: "\<forall>k \<le> MAX_UNIQUE_IMAGE_FETCH_ATTEMPTS.
         \<exists>img. exampleRepeatingFetch k = Some img \<and> image_id img \<in> set [''xyz'', ''abc'']"
    by (simp add: exampleRepeatingFetch_def exampleRepeatedImage_def)
  have last: "exampleRepeatingFetch 5 = Some exampleRepeatedImage"
    by (simp add: exampleRepeatingFetch_def)
  have "getUnseenRandomRedditImage exampleMediaConfig ''c1'' exampleRepeatingFetch
          [(''c1'', [''xyz'', ''abc''])]
        = (Some exampleRepeatedImage, AList.update ''c1''
             (take 30 (image_id exampleRepeatedImage # [''xyz'', ''abc'']))
             [(''c1'', [''xyz'', ''abc''])])"
    using repeated_image_still_returned[OF cfg sub ids rep] last by auto
  then show ?thesis
    using cfg by (simp add: exampleRepeatedImage_def exampleRepeatingFetch_def)
qed

subsection \<open>Probability model\<close>

lemma unifiedResponseChance_capped: "unifiedResponseChance rate body \<le> roundDouble 0.8"
  by (simp add: unifiedResponseChance_def Let_def)

lemma legacyResponseChance_bound: "legacyResponseChance cfg body \<le> 0.702"
  by (simp add: legacyResponseChance_def Let_def split: option.splits MessageFrequency.splits MessageBehavior.splits)

lemma regexTestI_append: "regexTestI alts ys \<Longrightarrow> regexTestI alts (xs @ ys)"
  by (induction xs) auto

text \<open>
  Claim C1. The chance that is compared with the random draw never exceeds its cap: 0.8 on
  the unified path, 0.5 on the legacy path. The unified half holds, the cap being the
  double 0.8 (\<open>unifiedResponseChance_capped\<close>). On the legacy path the cap of line 378 is applied before
  the boosts for a long and for an emotional text (lines 385-386), so the value that is
  compared can reach 0.702 (\<open>legacyResponseChance_bound\<close>): for a user account with
  frequency high and behavior aggressive and a text of 101 code units that holds "wow", it
  is 0.3 * 1.5 * 1.2 * 1.3 = 0.702, and a draw of 0.6 makes the account respond.
\<close>

theorem legacy_chance_exceeds_cap:
  "100 < length exampleLongEmotionalText
   \<and> legacyResponseChance exampleLegacyUser exampleLongEmotionalText = 0.702
   \<and> \<not> legacyResponseChance exampleLegacyUser exampleLongEmotionalText \<le> 0.5
   \<and> shouldAccountRespond exampleLongEmotionalText exampleLegacyUser False False 0.6 0.6"
proof -
  have len: "length exampleLongEmotionalText = 101"
    by (simp add: exampleLongEmotionalText_def u16_def)
  have emo: "regexTestI legacyEmotions exampleLongEmotionalText"
    unfolding exampleLongEmotionalText_def
    by (rule regexTestI_append) (simp add: legacyEmotions_def u16_def asciiUpper_def)
  have q: "QUESTION_MARK \<notin> set exampleLongEmotionalText"
    by (simp add: exampleLongEmotionalText_def u16_def QUESTION_MARK_def)
  have chance: "legacyResponseChance exampleLegacyUser exampleLongEmotionalText = 0.702"
    by (simp add: legacyResponseChance_def Let_def len emo exampleLegacyUser_def)
  have legacy: "shouldLegacyUserAccountRespond exampleLongEmotionalText exampleLegacyUser
      False False 0.6 0.6"
    by (simp add: shouldLegacyUserAccountRespond_def q chance)
  have kind: "interactionRate exampleLegacyUser = None" "accountType exampleLegacyUser = User"
    by (simp_all add: exampleLegacyUser_def)
  have responds: "shouldAccountRespond exampleLongEmotionalText exampleLegacyUser False False 0.6 0.6"
    using legacy by (simp add: shouldAccountRespond_def kind)
  show ?thesis using len chance responds by simp
qed

lemma first_segment_mono:
  assumes "0 \<le> k" "0 \<le> L1" "L1 \<le> L2"
  shows "mulD (divD (of_int L1) 20) k \<le> mulD (divD (of_int L2) 20) k"
proof -
  let ?d1 = "divD (of_int L1) 20" and ?d2 = "divD (of_int L2) 20"
  have q: "(0::rat) \<le> of_int L1 / 20" "(of_int L1 :: rat) / 20 \<le> of_int L2 / 20"
    using assms(2,3) by simp_all
  have d0: "0 \<le> ?d1" unfolding divD_def by (rule roundDouble_nonneg[OF q(1)])
  have d: "?d1 \<le> ?d2" unfolding divD_def by (rule roundDouble_mono[OF q])
  have p0: "0 \<le> ?d1 * k" using d0 assms(1) by simp
  have p: "?d1 * k \<le> ?d2 * k" using d assms(1) by (rule mult_right_mono)
  show ?thesis unfolding mulD_def by (rule roundDouble_mono[OF p0 p])
qed

lemma segment_mono:
  assumes "0 \<le> c" "0 \<le> k" "a \<le> L1" "L1 \<le> L2"
  shows "addD c (mulD (divD (of_int (L1 - a)) 20) k)
       \<le> addD c (mulD (divD (of_int (L2 - a)) 20) k)"
proof -
  let ?m1 = "mulD (divD (of_int (L1 - a)) 20) k" and ?m2 = "mulD (divD (of_int (L2 - a)) 20) k"
  have m: "?m1 \<le> ?m2"
    using first_segment_mono[of k "L1 - a" "L2 - a"] assms(2,3,4) by simp
  have q: "(0::rat) \<le> of_int (L1 - a) / 20" using assms(3) by simp
  have "0 \<le> divD (of_int (L1 - a)) 20" unfolding divD_def by (rule roundDouble_nonneg[OF q])
  then have "0 \<le> divD (of_int (L1 - a)) 20 * k" using assms(2) by simp
  then have m0: "0 \<le> ?m1" unfolding mulD_def by (rule roundDouble_nonneg)
  have s0: "0 \<le> c + ?m1" using assms(1) m0 by simp
  have s: "c + ?m1 \<le> c + ?m2" using m by simp
  show ?thesis unfolding addD_def by (rule roundDouble_mono[OF s0 s])
qed

text \<open>The values at the ends of the five segments, and the four steps between segments.\<close>

lemma baseResponseChance_20: "baseResponseChance 20 = roundDouble 0.05"
  by code_simp

lemma baseResponseChance_40: "baseResponseChance 40 = roundDouble 0.15 + pow2 (- 55)"
  by code_simp

lemma baseResponseChance_60: "baseResponseChance 60 = roundDouble 0.30"
  by code_simp

lemma baseResponseChance_80: "baseResponseChance 80 = roundDouble 0.50"
  by code_simp

lemma baseResponseChance_100: "baseResponseChance 100 = roundDouble 0.70"
  by code_simp

lemma baseResponseChance_20_21: "baseResponseChance 20 \<le> baseResponseChance 21"
  by code_simp

lemma baseResponseChance_40_41: "baseResponseChance 40 \<le> baseResponseChance 41"
  by code_simp

lemma baseResponseChance_60_61: "baseResponseChance 60 \<le> baseResponseChance 61"
  by code_simp

lemma baseResponseChance_80_81: "baseResponseChance 80 \<le> baseResponseChance 81"
  by code_simp

lemma baseResponseChance_step:
  assumes "1 \<le> L" "L < 100"
  shows "baseResponseChance L \<le> baseResponseChance (L + 1)"
proof -
  have c: "0 \<le> roundDouble 0.05" "0 \<le> roundDouble 0.10" "0 \<le> roundDouble 0.15"
    "0 \<le> roundDouble 0.20" "0 \<le> roundDouble 0.30" "0 \<le> roundDouble 0.50"
    by (simp_all add: roundDouble_nonneg)
  consider "L < 20" | "L = 20" | "20 < L \<and> L < 40" | "L = 40" | "40 < L \<and> L < 60" | "L = 60"
    | "60 < L \<and> L < 80" | "L = 80" | "80 < L"
    by linarith
  then show ?thesis
  proof cases
    case 1
    then show ?thesis
      using first_segment_mono[of "roundDouble 0.05" L "L + 1"] assms c
      by (simp add: baseResponseChance_def)
  next
    case 2
    then show ?thesis using baseResponseChance_20_21 by simp
  next
    case 3
    then show ?thesis
      using segment_mono[of "roundDouble 0.05" "roundDouble 0.10" 20 L "L + 1"] c
      by (simp add: baseResponseChance_def)
  next
    case 4
    then show ?thesis using baseResponseChance_40_41 by simp
  next
    case 5
    then show ?thesis
      using segment_mono[of "roundDouble 0.15" "roundDouble 0.15" 40 L "L + 1"] c
      by (simp add: baseResponseChance_def)
  next
    case 6
    then show ?thesis using baseResponseChance_60_61 by simp
  next
    case 7
    then show ?thesis
      using segment_mono[of "roundDouble 0.30" "roundDouble 0.20" 60 L "L + 1"] c
      by (simp add: baseResponseChance_def)
  next
    case 8
    then show ?thesis using baseResponseChance_80_81 by simp
  next
    case 9
    then show ?thesis
      using segment_mono[of "roundDouble 0.50" "roundDouble 0.20" 80 L "L + 1"] c
      by (simp add: baseResponseChance_def)
  qed
qed

lemma baseResponseChance_mono:
  assumes "1 \<le> L1" "L1 \<le> L2" "L2 \<le> 100"
  shows "baseResponseChance L1 \<le> baseResponseChance L2"
proof -
  have "L2 \<le> 100 \<longrightarrow> baseResponseChance L1 \<le> baseResponseChance L2"
    using assms(2)
  proof (induction L2 rule: int_ge_induct)
    case base
    show ?case by simp
  next
    case (step i)
    show ?case
    proof
      assume top: "i + 1 \<le> 100"
      then have "baseResponseChance L1 \<le> baseResponseChance i" using step.IH by simp
      moreover have "baseResponseChance i \<le> baseResponseChance (i + 1)"
        using baseResponseChance_step[of i] assms(1) step.hyps top by simp
      ultimately show "baseResponseChance L1 \<le> baseResponseChance (i + 1)" by (rule order_trans)
    qed
  qed
  then show ?thesis using assms(3) by simp
qed

lemma baseResponseChance_le_cap:
  assumes "1 \<le> rate" "rate \<le> 100"
  shows "baseResponseChance rate \<le> roundDouble 0.8"
proof -
  have "baseResponseChance rate \<le> baseResponseChance 100"
    using baseResponseChance_mono[of rate 100] assms by simp
  also have "\<dots> = roundDouble 0.70" by (rule baseResponseChance_100)
  also have "\<dots> \<le> roundDouble 0.8" by (rule roundDouble_mono) simp_all
  finally show ?thesis .
qed

lemma plain_chance:
  assumes "QUESTION_MARK \<notin> set body" "EXCLAMATION_MARK \<notin> set body"
    "length body \<le> 100" "\<not> regexTestI unifiedEmotions body" "1 \<le> rate" "rate \<le> 100"
  shows "unifiedResponseChance rate body = baseResponseChance rate"
  using assms(1-4) baseResponseChance_le_cap[OF assms(5,6)]
  by (simp add: unifiedResponseChance_def Let_def)

lemma examplePlainText:
  "QUESTION_MARK \<notin> set (u16 ''hello there'')" "EXCLAMATION_MARK \<notin> set (u16 ''hello there'')"
  "length (u16 ''hello there'') \<le> 100" "\<not> regexTestI unifiedEmotions (u16 ''hello there'')"
  by (simp_all add: QUESTION_MARK_def EXCLAMATION_MARK_def u16_def unifiedEmotions_def asciiUpper_def)

text \<open>
  Claim C2. For a text that triggers no boost, the chance is non-decreasing in the
  interaction rate over 1..100 and is exactly 0.05, 0.15, 0.30, 0.50 and 0.70 at the rates
  20, 40, 60, 80 and 100. This fails at rate 40: the code adds the doubles 0.05 and 0.10,
  and their sum rounds to \<^verbatim>\<open>0.15000000000000002\<close>, one unit in the last place above the
  double 0.15 (and not the fraction 15/100 either).
\<close>

theorem rate_forty_chance_is_above_fifteen_hundredths:
  "QUESTION_MARK \<notin> set (u16 ''hello there'') \<and> EXCLAMATION_MARK \<notin> set (u16 ''hello there'')
   \<and> length (u16 ''hello there'') \<le> 100 \<and> \<not> regexTestI unifiedEmotions (u16 ''hello there'')
   \<and> unifiedResponseChance 40 (u16 ''hello there'') = roundDouble 0.15 + pow2 (- 55)
   \<and> unifiedResponseChance 40 (u16 ''hello there'') \<noteq> roundDouble 0.15
   \<and> unifiedResponseChance 40 (u16 ''hello there'') \<noteq> 0.15"
proof -
  have v: "unifiedResponseChance 40 (u16 ''hello there'') = roundDouble 0.15 + pow2 (- 55)"
    using plain_chance[OF examplePlainText, of 40] baseResponseChance_40 by simp
  have n1: "roundDouble 0.15 + pow2 (- 55) \<noteq> roundDouble 0.15" by (simp add: pow2_def)
  have n2: "roundDouble 0.15 + pow2 (- 55) \<noteq> 0.15" by code_simp
  show ?thesis using examplePlainText v n1 n2 by simp
qed

text \<open>
  Claim C2, amended. For a text that triggers no boost (no question mark, no exclamation
  mark, at most 100 code units, no emotional keyword) the chance computed for an
  unaddressed message is non-decreasing in the interaction rate over 1..100; it is the
  piecewise-linear base formula evaluated in double arithmetic, with which
  \<open>shouldAccountRespond\<close> compares its draw; at the rates 20, 60, 80 and 100 it is the double
  0.05, 0.30, 0.50 and 0.70, and at the rate 40 it is \<^verbatim>\<open>0.15000000000000002\<close>, the double
  next above 0.15.
\<close>

theorem plain_text_chance_monotone_double_breakpoints:
  assumes plain: "QUESTION_MARK \<notin> set body" "EXCLAMATION_MARK \<notin> set body"
    "length body \<le> 100" "\<not> regexTestI unifiedEmotions body"
  shows "(1 \<le> L1 \<and> L1 \<le> L2 \<and> L2 \<le> 100
            \<longrightarrow> unifiedResponseChance L1 body \<le> unifiedResponseChance L2 body)
       \<and> (1 \<le> L \<and> L \<le> 100 \<and> interactionRate cfg = Some L
            \<longrightarrow> unifiedResponseChance L body = baseResponseChance L
              \<and> shouldAccountRespond body cfg False False rnd1 rnd2 = (rnd1 < baseResponseChance L))
       \<and> unifiedResponseChance 20 body = roundDouble 0.05
       \<and> unifiedResponseChance 40 body = roundDouble 0.15 + pow2 (- 55)
       \<and> unifiedResponseChance 60 body = roundDouble 0.30
       \<and> unifiedResponseChance 80 body = roundDouble 0.50
       \<and> unifiedResponseChance 100 body = roundDouble 0.70"
proof -
  have mono: "1 \<le> L1 \<and> L1 \<le> L2 \<and> L2 \<le> 100
            \<longrightarrow> unifiedResponseChance L1 body \<le> unifiedResponseChance L2 body"
  proof
    assume a: "1 \<le> L1 \<and> L1 \<le> L2 \<and> L2 \<le> 100"
    then have "unifiedResponseChance L1 body = baseResponseChance L1"
      "unifiedResponseChance L2 body = baseResponseChance L2"
      using plain_chance[OF plain, of L1] plain_chance[OF plain, of L2] by simp_all
    then show "unifiedResponseChance L1 body \<le> unifiedResponseChance L2 body"
      using baseResponseChance_mono[of L1 L2] a by simp
  qed
  have resp: "1 \<le> L \<and> L \<le> 100 \<and> interactionRate cfg = Some L
            \<longrightarrow> unifiedResponseChance L body = baseResponseChance L
              \<and> shouldAccountRespond body cfg False False rnd1 rnd2 = (rnd1 < baseResponseChance L)"
    using plain_chance[OF plain, of L] by (simp add: shouldAccountRespond_def)
  have bp: "unifiedResponseChance 20 body = roundDouble 0.05"
    "unifiedResponseChance 40 body = roundDouble 0.15 + pow2 (- 55)"
    "unifiedResponseChance 60 body = roundDouble 0.30"
    "unifiedResponseChance 80 body = roundDouble 0.50"
    "unifiedResponseChance 100 body = roundDouble 0.70"
    using plain_chance[OF plain, of 20] plain_chance[OF plain, of 40] plain_chance[OF plain, of 60]
      plain_chance[OF plain, of 80] plain_chance[OF plain, of 100]
      baseResponseChance_20 baseResponseChance_40 baseResponseChance_60 baseResponseChance_80
      baseResponseChance_100
    by simp_all
  show ?thesis using mono resp bp by blast
qed

theorem plain_text_chance_double_witness:
  "QUESTION_MARK \<notin> set (u16 ''hello there'') \<and> EXCLAMATION_MARK \<notin> set (u16 ''hello there'')
   \<and> length (u16 ''hello there'') \<le> 100 \<and> \<not> regexTestI unifiedEmotions (u16 ''hello there'')
   \<and> (1::int) \<le> 20 \<and> (20::int) \<le> 60 \<and> (60::int) \<le> 100
   \<and> interactionRate exampleBotRate60 = Some 60
   \<and> unifiedResponseChance 20 (u16 ''hello there'') \<le> unifiedResponseChance 60 (u16 ''hello there'')
   \<and> unifiedResponseChance 40 (u16 ''hello there'') = roundDouble 0.15 + pow2 (- 55)
   \<and> unifiedResponseChance 60 (u16 ''hello there'') = roundDouble 0.30
   \<and> shouldAccountRespond (u16 ''hello there'') exampleBotRate60 False False (1/4) 0
   \<and> \<not> shouldAccountRespond (u16 ''hello there'') exampleBotRate60 False False (roundDouble 0.30) 0"
proof -
  have r: "interactionRate exampleBotRate60 = Some 60" by (simp add: exampleBotRate60_def)
  have lt: "(1/4 :: rat) < roundDouble 0.30" by code_simp
  have yes: "shouldAccountRespond (u16 ''hello there'') exampleBotRate60 False False (1/4) 0"
    using plain_text_chance_monotone_double_breakpoints[where L = 60 and cfg = exampleBotRate60
        and ?rnd1.0 = "1/4" and ?rnd2.0 = 0, OF examplePlainText] r lt baseResponseChance_60
    by simp
  have no: "\<not> shouldAccountRespond (u16 ''hello there'') exampleBotRate60 False False
      (roundDouble 0.30) 0"
    using plain_text_chance_monotone_double_breakpoints[where L = 60 and cfg = exampleBotRate60
        and ?rnd1.0 = "roundDouble 0.30" and ?rnd2.0 = 0, OF examplePlainText] r
      baseResponseChance_60
    by simp
  have "(1::int) \<le> 20 \<and> (20::int) \<le> 60 \<and> (60::int) \<le> 100
      \<longrightarrow> unifiedResponseChance 20 (u16 ''hello there'')
            \<le> unifiedResponseChance 60 (u16 ''hello there'')"
    by (rule conjunct1[OF plain_text_chance_monotone_double_breakpoints[where ?L1.0 = 20
          and ?L2.0 = 60, OF examplePlainText]])
  then have mono: "unifiedResponseChance 20 (u16 ''hello there'')
      \<le> unifiedResponseChance 60 (u16 ''hello there'')"
    by simp
  have vals: "unifiedResponseChance 40 (u16 ''hello there'') = roundDouble 0.15 + pow2 (- 55)"
    "unifiedResponseChance 60 (u16 ''hello there'') = roundDouble 0.30"
    using plain_text_chance_monotone_double_breakpoints[where ?L1.0 = 20 and ?L2.0 = 60
        and L = 60 and cfg = exampleBotRate60 and ?rnd1.0 = 0 and ?rnd2.0 = 0,
        OF examplePlainText]
    by blast+
  show ?thesis
    using examplePlainText r yes no mono vals by simp
qed




subsection \<open>Timing model and the wait before a reply\<close>

lemma floor_rat_numeral_divide:
  "\<lfloor>(numeral a / numeral b :: rat)\<rfloor> = numeral a div numeral b"
  by (metis floor_divide_of_int_eq of_int_numeral)

lemma calculateRealisticDelay_upper:
  "calculateRealisticDelay dev devMax t isDM isUrgent rnd \<le> (if dev then devMax else MAX_RESPONSE_DELAY_MS)"
  by (simp add: calculateRealisticDelay_def Let_def split: prod.splits)

lemma calculateRealisticDelay_lower:
  "(dev \<Longrightarrow> MIN_RESPONSE_DELAY_MS \<le> devMax)
   \<Longrightarrow> MIN_RESPONSE_DELAY_MS \<le> calculateRealisticDelay dev devMax t isDM isUrgent rnd"
  by (cases dev)
     (simp_all add: calculateRealisticDelay_def Let_def MIN_RESPONSE_DELAY_MS_def
        MAX_RESPONSE_DELAY_MS_def split: prod.splits)

lemma calculateRealisticDelay_negative:
  "t < 0 \<Longrightarrow> calculateRealisticDelay dev devMax t isDM isUrgent rnd
             = calculateRealisticDelay dev devMax 0 isDM isUrgent rnd"
  by (simp add: calculateRealisticDelay_def baseDelayRange_def)

text \<open>
  Claim C5. For every elapsed time (a negative one counts as 0), every combination of the
  two flags and every random draw, the delay is at least 2000 ms and at most the hard
  ceiling: 15 minutes, or the development ceiling in development mode. The development
  ceiling is not among the constants of the repository; the floor needs it to be at
  least the floor (the ceiling is applied last), which is the hypothesis.
\<close>

theorem delay_between_floor_and_ceiling:
  assumes "DEVELOPMENT_MODE \<Longrightarrow> MIN_RESPONSE_DELAY_MS \<le> DEVELOPMENT_MAX_DELAY_MS"
  shows "2000 \<le> calculateRealisticDelay DEVELOPMENT_MODE DEVELOPMENT_MAX_DELAY_MS
                   timeSinceLastMs isDM isUrgent rnd
       \<and> calculateRealisticDelay DEVELOPMENT_MODE DEVELOPMENT_MAX_DELAY_MS
            timeSinceLastMs isDM isUrgent rnd
           \<le> (if DEVELOPMENT_MODE then DEVELOPMENT_MAX_DELAY_MS else 15 * 60 * 1000)
       \<and> (timeSinceLastMs < 0 \<longrightarrow>
            calculateRealisticDelay DEVELOPMENT_MODE DEVELOPMENT_MAX_DELAY_MS
              timeSinceLastMs isDM isUrgent rnd
            = calculateRealisticDelay DEVELOPMENT_MODE DEVELOPMENT_MAX_DELAY_MS 0 isDM isUrgent rnd)"
  using calculateRealisticDelay_lower[where dev = DEVELOPMENT_MODE and devMax = DEVELOPMENT_MAX_DELAY_MS
      and t = timeSinceLastMs and isDM = isDM and isUrgent = isUrgent and rnd = rnd, OF assms]
    calculateRealisticDelay_upper[where dev = DEVELOPMENT_MODE and devMax = DEVELOPMENT_MAX_DELAY_MS
      and t = timeSinceLastMs and isDM = isDM and isUrgent = isUrgent and rnd = rnd]
    calculateRealisticDelay_negative[where dev = DEVELOPMENT_MODE and devMax = DEVELOPMENT_MAX_DELAY_MS
      and t = timeSinceLastMs and isDM = isDM and isUrgent = isUrgent and rnd = rnd]
  by (cases DEVELOPMENT_MODE) (simp_all add: MIN_RESPONSE_DELAY_MS_def MAX_RESPONSE_DELAY_MS_def)

theorem delay_between_floor_and_ceiling_witness:
  "MIN_RESPONSE_DELAY_MS \<le> 30000 \<and> (-5 :: int) < 0
   \<and> calculateRealisticDelay True 30000 (-5) True True (1/2) = 10000
   \<and> calculateRealisticDelay True 30000 0 True True (1/2) = 10000
   \<and> calculateRealisticDelay False 30000 86400000 False False (999/1000) = 900000"
proof -
  have h: "True \<Longrightarrow> MIN_RESPONSE_DELAY_MS \<le> 30000" by (simp add: MIN_RESPONSE_DELAY_MS_def)
  have v: "calculateRealisticDelay True 30000 0 True True (1/2) = 10000"
    "calculateRealisticDelay False 30000 86400000 False False (999/1000) = 900000"
    by (simp_all add: calculateRealisticDelay_def baseDelayRange_def Let_def
          MIN_RESPONSE_DELAY_MS_def MAX_RESPONSE_DELAY_MS_def floor_rat_numeral_divide)
  show ?thesis
    using delay_between_floor_and_ceiling[where DEVELOPMENT_MODE = True and DEVELOPMENT_MAX_DELAY_MS = 30000
        and timeSinceLastMs = "-5" and isDM = True and isUrgent = True and rnd = "1/2", OF h] v
    by (simp add: MIN_RESPONSE_DELAY_MS_def)
qed

lemma calculateTypingDelay_range:
  assumes "0 \<le> rnd" "rnd < 1"
  shows "2000 \<le> calculateTypingDelay 10000 rnd \<and> calculateTypingDelay 10000 rnd \<le> 6000"
proof -
  have "2000 \<le> 10000 * (0.2 + rnd * (0.6 - 0.2))" using assms(1) by simp
  then have l: "2000 \<le> \<lfloor>10000 * (0.2 + rnd * (0.6 - 0.2))\<rfloor>" by (simp only: le_floor_iff of_int_numeral)
  have "10000 * (0.2 + rnd * (0.6 - 0.2)) < 6000 + 1" using assms(2) by simp
  then have u: "\<lfloor>10000 * (0.2 + rnd * (0.6 - 0.2))\<rfloor> \<le> 6000" by (simp only: floor_le_iff of_int_numeral)
  show ?thesis using l u
    by (simp add: calculateTypingDelay_def Let_def TYPING_INDICATOR_MIN_PERCENTAGE_def
          TYPING_INDICATOR_MAX_PERCENTAGE_def)
qed

lemma waitBeforeReply_substitutes:
  assumes "\<not> instantResponse (checkDebugCheats body)"
    and "30000 < calculateRealisticDelay dev devMax t isDM isUrgent rDelay"
  shows "waitBeforeReply dev devMax canType body t isDM isUrgent rDelay rTyping rSafe
       = [Sleep (calculateTypingDelay 10000 rSafe)] @ (if canType then [SendTyping] else [])
         @ [Sleep (10000 - calculateTypingDelay 10000 rSafe)]"
  using assms by (simp add: waitBeforeReply_def Let_def)

lemma waitBeforeReply_total:
  assumes "0 \<le> rSafe" "rSafe < 1"
  shows "totalWait (waitBeforeReply dev devMax canType body t isDM isUrgent rDelay rTyping rSafe)
           \<le> 30000"
  using calculateTypingDelay_range[OF assms]
  by (simp add: waitBeforeReply_def Let_def totalWait_def)

lemma waitBeforeReply_total_substituted:
  assumes "0 \<le> rSafe" "rSafe < 1"
    and "\<not> instantResponse (checkDebugCheats body)"
    and "30000 < calculateRealisticDelay dev devMax t isDM isUrgent rDelay"
  shows "totalWait (waitBeforeReply dev devMax canType body t isDM isUrgent rDelay rTyping rSafe)
           = 10000"
  using calculateTypingDelay_range[OF assms(1,2)] assms(3,4)
  by (simp add: waitBeforeReply_def Let_def totalWait_def)

text \<open>
  Claim C4. In both handlers, without the instant-response override: when the computed
  delay exceeds 30000 ms the handler waits a typing offset computed from a fresh draw for
  a delay of 10000 ms, shows the typing indicator and waits the rest of the 10000 ms, in
  place of the computed delay. The awaited timeouts before the reply therefore never sum
  to more than 30000 ms.
\<close>

theorem long_delay_replaced_by_ten_seconds:
  assumes draw: "0 \<le> rSafe" "rSafe < 1"
    and noCheat: "\<not> instantResponse (checkDebugCheats body)"
  shows "(30000 < calculateRealisticDelay DEVELOPMENT_MODE DEVELOPMENT_MAX_DELAY_MS
                    (timeSinceLastInteraction lastInteractionTime now) False
                    (isMessageUrgent body isMentioned) rDelay
          \<longrightarrow> channelWait DEVELOPMENT_MODE DEVELOPMENT_MAX_DELAY_MS canType body isMentioned
                  lastInteractionTime now rDelay rTyping rSafe
                = [Sleep (calculateTypingDelay 10000 rSafe)]
                  @ (if canType then [SendTyping] else [])
                  @ [Sleep (10000 - calculateTypingDelay 10000 rSafe)]
              \<and> totalWait (channelWait DEVELOPMENT_MODE DEVELOPMENT_MAX_DELAY_MS canType body
                   isMentioned lastInteractionTime now rDelay rTyping rSafe) = 10000)
       \<and> (30000 < calculateRealisticDelay DEVELOPMENT_MODE DEVELOPMENT_MAX_DELAY_MS
                    (timeSinceLastInteraction lastInteractionTime now) True
                    (isMessageUrgent body True) rDelay
          \<longrightarrow> directWait DEVELOPMENT_MODE DEVELOPMENT_MAX_DELAY_MS canType body
                  lastInteractionTime now rDelay rTyping rSafe
                = [Sleep (calculateTypingDelay 10000 rSafe)]
                  @ (if canType then [SendTyping] else [])
                  @ [Sleep (10000 - calculateTypingDelay 10000 rSafe)]
              \<and> totalWait (directWait DEVELOPMENT_MODE DEVELOPMENT_MAX_DELAY_MS canType body
                   lastInteractionTime now rDelay rTyping rSafe) = 10000)
       \<and> totalWait (channelWait DEVELOPMENT_MODE DEVELOPMENT_MAX_DELAY_MS canType body isMentioned
            lastInteractionTime now rDelay rTyping rSafe) \<le> 30000
       \<and> totalWait (directWait DEVELOPMENT_MODE DEVELOPMENT_MAX_DELAY_MS canType body
            lastInteractionTime now rDelay rTyping rSafe) \<le> 30000"
  unfolding channelWait_def directWait_def
proof (intro conjI impI)
  let ?t = "timeSinceLastInteraction lastInteractionTime now"
  show "totalWait (waitBeforeReply DEVELOPMENT_MODE DEVELOPMENT_MAX_DELAY_MS canType body ?t False
          (isMessageUrgent body isMentioned) rDelay rTyping rSafe) \<le> 30000"
    by (rule waitBeforeReply_total[OF draw])
  show "totalWait (waitBeforeReply DEVELOPMENT_MODE DEVELOPMENT_MAX_DELAY_MS canType body ?t True
          (isMessageUrgent body True) rDelay rTyping rSafe) \<le> 30000"
    by (rule waitBeforeReply_total[OF draw])
next
  let ?t = "timeSinceLastInteraction lastInteractionTime now"
  assume big: "30000 < calculateRealisticDelay DEVELOPMENT_MODE DEVELOPMENT_MAX_DELAY_MS ?t False
                 (isMessageUrgent body isMentioned) rDelay"
  show "waitBeforeReply DEVELOPMENT_MODE DEVELOPMENT_MAX_DELAY_MS canType body ?t False
          (isMessageUrgent body isMentioned) rDelay rTyping rSafe
        = [Sleep (calculateTypingDelay 10000 rSafe)] @ (if canType then [SendTyping] else [])
          @ [Sleep (10000 - calculateTypingDelay 10000 rSafe)]"
    by (rule waitBeforeReply_substitutes[OF noCheat big])
  show "totalWait (waitBeforeReply DEVELOPMENT_MODE DEVELOPMENT_MAX_DELAY_MS canType body ?t False
          (isMessageUrgent body isMentioned) rDelay rTyping rSafe) = 10000"
    by (rule waitBeforeReply_total_substituted[OF draw noCheat big])
next
  let ?t = "timeSinceLastInteraction lastInteractionTime now"
  assume big: "30000 < calculateRealisticDelay DEVELOPMENT_MODE DEVELOPMENT_MAX_DELAY_MS ?t True
                 (isMessageUrgent body True) rDelay"
  show "waitBeforeReply DEVELOPMENT_MODE DEVELOPMENT_MAX_DELAY_MS canType body ?t True
          (isMessageUrgent body True) rDelay rTyping rSafe
        = [Sleep (calculateTypingDelay 10000 rSafe)] @ (if canType then [SendTyping] else [])
          @ [Sleep (10000 - calculateTypingDelay 10000 rSafe)]"
    by (rule waitBeforeReply_substitutes[OF noCheat big])
  show "totalWait (waitBeforeReply DEVELOPMENT_MODE DEVELOPMENT_MAX_DELAY_MS canType body ?t True
          (isMessageUrgent body True) rDelay rTyping rSafe) = 10000"
    by (rule waitBeforeReply_total_substituted[OF draw noCheat big])
qed


theorem long_delay_replaced_by_ten_seconds_witness:
  "(0::rat) \<le> 1/4 \<and> (1/4 :: rat) < 1 \<and> \<not> instantResponse (checkDebugCheats (u16 ''hello''))
   \<and> calculateRealisticDelay False 0 (timeSinceLastInteraction (Some 1699990000000) 1700000000000)
        False (isMessageUrgent (u16 ''hello'') False) (999/1000) = 900000
   \<and> calculateRealisticDelay False 0 (timeSinceLastInteraction (Some 1699990000000) 1700000000000)
        True (isMessageUrgent (u16 ''hello'') True) (999/1000) = 648000
   \<and> channelWait False 0 True (u16 ''hello'') False (Some 1699990000000) 1700000000000
        (999/1000) (1/2) (1/4) = [Sleep 3000, SendTyping, Sleep 7000]
   \<and> directWait False 0 True (u16 ''hello'') (Some 1699990000000) 1700000000000
        (999/1000) (1/2) (1/4) = [Sleep 3000, SendTyping, Sleep 7000]"
proof -
  have d: "(0::rat) \<le> 1/4" "(1/4 :: rat) < 1" by simp_all
  have c: "\<not> instantResponse (checkDebugCheats (u16 ''hello''))"
    by (simp add: checkDebugCheats_def u16_def)
  have u: "\<not> isMessageUrgent (u16 ''hello'') False" "isMessageUrgent (u16 ''hello'') True"
    by (simp_all add: isMessageUrgent_def urgentPatterns_def u16_def asciiUpper_def)
  have v: "calculateRealisticDelay False 0 (timeSinceLastInteraction (Some 1699990000000) 1700000000000)
        False (isMessageUrgent (u16 ''hello'') False) (999/1000) = 900000"
    "calculateRealisticDelay False 0 (timeSinceLastInteraction (Some 1699990000000) 1700000000000)
        True (isMessageUrgent (u16 ''hello'') True) (999/1000) = 648000"
    by (simp_all add: u calculateRealisticDelay_def baseDelayRange_def timeSinceLastInteraction_def
          Let_def MIN_RESPONSE_DELAY_MS_def MAX_RESPONSE_DELAY_MS_def floor_rat_numeral_divide)
  have t: "calculateTypingDelay 10000 (1/4) = 3000"
    by (simp add: calculateTypingDelay_def Let_def TYPING_INDICATOR_MIN_PERCENTAGE_def
          TYPING_INDICATOR_MAX_PERCENTAGE_def)
  show ?thesis
    using long_delay_replaced_by_ten_seconds[where rSafe = "1/4" and body = "u16 ''hello''" and DEVELOPMENT_MODE = False
        and DEVELOPMENT_MAX_DELAY_MS = 0 and lastInteractionTime = "Some 1699990000000"
        and now = 1700000000000 and isMentioned = False and rDelay = "999/1000" and canType = True
        and rTyping = "1/2", OF d c] v t c
    by simp
qed

subsection \<open>Direct messages\<close>

text \<open>
  Claim C7. A direct message that does not address the account is replied to only when the
  sampled probability check passes. This fails: the handler hands every direct message to
  \<open>handleDirectMessage\<close>, which holds no such check. A bot account without an interaction
  rate, for which the check fails on every draw, still goes on to the wait before its reply.
\<close>

theorem direct_message_replied_without_probability_check:
  "channelType exampleDirectMessage = DM
   \<and> userId exampleClientUser \<notin> set (mentionedUserIds exampleDirectMessage)
   \<and> \<not> includes_str (asciiToLowerCase (content exampleDirectMessage))
          (asciiToLowerCase (username exampleClientUser))
   \<and> \<not> shouldAccountRespond (content exampleDirectMessage) exampleBotNoRate False False
          (rndRespond1 exampleDraws) (rndRespond2 exampleDraws)
   \<and> fst (messageCreate False 0 asciiToLowerCase (Some exampleClientUser) exampleBotNoRate True True
          1700000000000 exampleDraws [] exampleDirectMessage [])
       = Proceeds [ScheduleTyping 4000, Sleep 10000, ClearTyping]"
  by (simp add: exampleDirectMessage_def exampleClientUser_def exampleBotNoRate_def exampleDraws_def
        messageCreate_def canRespondToChannel_def handleDirectMessage_def directWait_def
        waitBeforeReply_def checkDebugCheats_def calculateRealisticDelay_def baseDelayRange_def
        calculateTypingDelay_def timeSinceLastInteraction_def isMessageUrgent_def
        shouldAccountRespond_def asciiToLowerCase_def asciiLower_def u16_def Let_def
        MIN_RESPONSE_DELAY_MS_def MAX_RESPONSE_DELAY_MS_def TYPING_INDICATOR_MIN_PERCENTAGE_def
        TYPING_INDICATOR_MAX_PERCENTAGE_def floor_rat_numeral_divide)

text \<open>
  Claim C7, amended. For a direct (1:1) channel the handler consults neither the chain
  guard nor the probability model: every direct message that the account did not write
  itself goes on to the wait before the reply, with the timing of a direct message,
  whatever the account's configuration and the random draws, and the chain map is left
  as it was.
\<close>

theorem direct_message_always_proceeds:
  assumes "channelType message = DM"
    and "\<not> (case clientUser of Some u \<Rightarrow> authorId message = userId u | None \<Rightarrow> False)"
  shows "messageCreate DEVELOPMENT_MODE DEVELOPMENT_MAX_DELAY_MS toLowerCase clientUser accountConfig
           hasPermissions canType now draws lastInteractionTimes message accountToAccountChains
       = (Proceeds (directWait DEVELOPMENT_MODE DEVELOPMENT_MAX_DELAY_MS canType (content message)
            (map_of lastInteractionTimes
               (getInteractionKey (channelId message) (authorId message) (id_cfg accountConfig)))
            now (rndDelay draws) (rndTyping draws) (rndSafeTyping draws)),
          accountToAccountChains)"
  using assms
  by (simp add: messageCreate_def canRespondToChannel_def handleDirectMessage_def Let_def)

theorem direct_message_always_proceeds_witness:
  "channelType exampleDirectMessage = DM
   \<and> \<not> (case Some exampleClientUser of Some u \<Rightarrow> authorId exampleDirectMessage = userId u
          | None \<Rightarrow> False)
   \<and> messageCreate False 0 asciiToLowerCase (Some exampleClientUser) exampleBotNoRate False True
        1700000000000 exampleDraws [] exampleDirectMessage []
       = (Proceeds (directWait False 0 True (u16 ''hello'') None 1700000000000 (1/2) (1/2) (1/2)), [])"
proof -
  have a: "channelType exampleDirectMessage = DM" by (simp add: exampleDirectMessage_def)
  have b: "\<not> (case Some exampleClientUser of Some u \<Rightarrow> authorId exampleDirectMessage = userId u
          | None \<Rightarrow> False)"
    by (simp add: exampleDirectMessage_def exampleClientUser_def)
  show ?thesis
    using direct_message_always_proceeds[where DEVELOPMENT_MODE = False and DEVELOPMENT_MAX_DELAY_MS = 0
        and toLowerCase = asciiToLowerCase and accountConfig = exampleBotNoRate
        and hasPermissions = False and canType = True and now = 1700000000000
        and draws = exampleDraws and lastInteractionTimes = "[]" and accountToAccountChains = "[]",
        OF a b] a b
    by (simp add: exampleDirectMessage_def exampleDraws_def)
qed

end
